theory Spec2Isabelle
  imports Main "HOL-Library.Word"
begin

unbundle bit_operations_syntax

section \<open>Data model\<close>

type_synonym byte = "8 word"

text \<open>
  A shallow embedding of the go-erlpack decoder: the byte reader, the term decoder
  (\<open>processItem\<close>, \<open>processRawData\<close>, \<open>processAtom\<close>), the cast engine
  (\<open>handleItemCasting\<close>), the pointer target (\<open>pointerSetter\<close>) and the entry point
  \<open>Unpack\<close>.

  Conventions of the embedding:
  \<^item> Go's \<open>error\<close> results and runtime panics are values of \<open>error\<close>; a function that can
    fail returns \<open>error + 'a\<close> with \<open>Inl\<close> for the failure. \<open>Err\<close> carries the text given
    to \<open>errors.New\<close>, \<open>Panic\<close> the message of a panic of the runtime or of \<open>reflect\<close>.
  \<^item> \<open>int\<close> and \<open>uint\<close> are the 64-bit types of the usual 64-bit targets.
  \<^item> A Go string is its byte sequence: names, tags and atoms are lists of bytes.
  \<^item> Memory exhaustion of \<open>make\<close> is not modelled.
  \<^item> A destination is a non-nil pointer to a variable; the model keeps the type of the
    pointer and the content of the variable, and a function that stores through the
    pointer returns the new content.
\<close>

datatype error = Err string | Panic string

text \<open>
  The dynamic values (\<open>interface{}\<close>) the decoder produces. \<open>IFloat64\<close> carries the bit
  pattern of the double. A Go map is an association list without duplicate keys, in
  insertion order; Go's own iteration order is unspecified.
\<close>

datatype item =
    INil
  | IAtom "byte list"
  | IBool bool
  | IUint8 "8 word"
  | IInt32 "32 word"
  | IInt64 "64 word"
  | IFloat64 "64 word"
  | IBytes "byte list"
  | IString "byte list"
  | ISlice "item list"
  | IMap "(item \<times> item) list"

text \<open>
  The method \<open>UncastedErlpack\<close> that a struct type may carry, as \<open>MethodByName\<close> and the
  checks on its signature see it: the number of parameters, whether the first one is
  \<open>*UncastedResult\<close>, the number of results, the kind of the first result, and what the
  method returns when called.
\<close>

datatype outkind = OutError | OutImplementsError | OutOther

datatype hook =
    NoHook
  | Hook (numIn: nat) (in0_uncasted: bool) (numOut: nat) (out0: outkind)
      (run: "item \<Rightarrow> error option")

text \<open>
  Destination types. \<open>[]byte\<close> is \<open>TSlice TUint8\<close>, \<open>[]interface{}\<close> is
  \<open>TSlice TInterface\<close>, \<open>map[interface{}]interface{}\<close> is \<open>TMap TInterface TInterface\<close>.
  \<open>TOther\<close> stands for every type the cast engine has no case for (\<open>int8\<close>, \<open>uint16\<close>,
  arrays, channels, ...). A struct type is given by its fields as the field enumeration
  of the \<open>structs\<close> package reports them: name, \<open>erlpack\<close> tag (empty when absent) and
  type; the tag \<open>"-"\<close> is the one byte 45.
\<close>

datatype gotype =
    TInterface
  | TUncastedResult
  | TAtom
  | TString
  | TBool
  | TInt
  | TUint
  | TUint8
  | TInt32
  | TInt64
  | TFloat32
  | TFloat64
  | TRawData
  | TRawMessage
  | TPtr gotype
  | TSlice gotype
  | TMap gotype gotype
  | TStruct hook "field list"
  | TOther string
and field = Field (fname: "byte list") (ftag: "byte list") (ftype: gotype)

text \<open>
  Typed Go values, as trees: a non-nil pointer is \<open>VPtr\<close> of what it points to. Every
  pointer the decoder stores is freshly allocated, so no two of them alias. \<open>VNil\<close> is
  the nil pointer, nil slice or nil map; \<open>VZero\<close> the zero value of a \<open>TOther\<close> type.
  Values of the slice types \<open>[]byte\<close>, \<open>RawData\<close> and \<open>json.RawMessage\<close> are \<open>VSlice\<close>s of
  \<open>VUint8\<close>.
\<close>

datatype gval =
    VNil
  | VZero
  | VPtr gval
  | VIface item
  | VUncasted item
  | VAtom "byte list"
  | VString "byte list"
  | VBool bool
  | VInt "64 word"
  | VUint "64 word"
  | VUint8 "8 word"
  | VInt32 "32 word"
  | VInt64 "64 word"
  | VFloat32 "32 word"
  | VFloat64 "64 word"
  | VSlice "gval list"
  | VMap "(gval \<times> gval) list"
  | VStruct "(byte list \<times> gval) list"

text \<open>\<open>reflect.Zero\<close>: the zero value of a type.\<close>

fun zero :: "gotype \<Rightarrow> gval"
  and zero_fields :: "field list \<Rightarrow> (byte list \<times> gval) list"
where
  "zero TInterface = VIface INil"
| "zero TUncastedResult = VUncasted INil"
| "zero TAtom = VAtom []"
| "zero TString = VString []"
| "zero TBool = VBool False"
| "zero TInt = VInt 0"
| "zero TUint = VUint 0"
| "zero TUint8 = VUint8 0"
| "zero TInt32 = VInt32 0"
| "zero TInt64 = VInt64 0"
| "zero TFloat32 = VFloat32 0"
| "zero TFloat64 = VFloat64 0"
| "zero TRawData = VNil"
| "zero TRawMessage = VNil"
| "zero (TPtr t) = VNil"
| "zero (TSlice t) = VNil"
| "zero (TMap k v) = VNil"
| "zero (TStruct h fs) = VStruct (zero_fields fs)"
| "zero (TOther n) = VZero"
| "zero_fields [] = []"
| "zero_fields (Field n tg t # fs) = (n, zero t) # zero_fields fs"

section \<open>pointerSetter\<close>

text \<open>
  A \<open>reflect.Value\<close> of a pointer is its static type together with the content of the
  slot it points to. \<open>pointerSetter\<close> is the struct of the cache-free source file,
  \<open>pointerSetterC\<close> the one with the \<open>baseCache\<close> field; the typed nil pointer
  \<open>(*T)(nil)\<close> that \<open>getBasePtr\<close> returns is represented by \<open>T\<close>.
\<close>

record pointerSetter =
  ptr_type :: gotype
  ptr_elem :: gval

record pointerSetterC = pointerSetter +
  baseCache :: "gotype option"

definition not_a_pointer :: error where
  "not_a_pointer =
     Panic ''not a pointer - this is a go-erlpack bug, this should be caught in the public functions!''"

text \<open>
  The loop of \<open>getBasePtr\<close> over \<open>x := s.ptr.Type()\<close>: while \<open>x\<close> is a pointer type, step
  to its element and return it once it is no pointer type.
\<close>

fun basePtrLoop :: "gotype \<Rightarrow> error + gotype" where
  "basePtrLoop (TPtr x) = (case x of TPtr y \<Rightarrow> basePtrLoop x | _ \<Rightarrow> Inr x)"
| "basePtrLoop x = Inl not_a_pointer"

definition getBasePtr :: "pointerSetter \<Rightarrow> error + gotype" where
  "getBasePtr s = basePtrLoop (ptr_type s)"

definition getBasePtrC :: "pointerSetterC \<Rightarrow> (error + gotype) \<times> pointerSetterC" where
  "getBasePtrC s =
     (case baseCache s of
        Some c \<Rightarrow> (Inr c, s)
      | None \<Rightarrow>
          (case basePtrLoop (ptr_type s) of
             Inr res \<Rightarrow> (Inr res, s\<lparr>baseCache := Some res\<rparr>)
           | Inl e \<Rightarrow> (Inl e, s)))"

text \<open>
  \<open>set\<close> walks down from the slot behind \<open>s.ptr\<close>. The position of \<open>x\<close> is the number of
  pointers between the root slot and the slot \<open>x\<close> points to; \<open>slot_update d v root\<close>
  is \<open>x.Elem().Set(v)\<close> at depth \<open>d\<close>.
\<close>

fun slot_update :: "nat \<Rightarrow> gval \<Rightarrow> gval \<Rightarrow> gval" where
  "slot_update 0 v root = v"
| "slot_update (Suc d) v (VPtr c) = VPtr (slot_update d v c)"
| "slot_update (Suc d) v root = root"

text \<open>
  The loop \<open>for x.Elem().Kind() == reflect.Ptr\<close>: \<open>t\<close> is the type of \<open>x.Elem()\<close>, \<open>d\<close> the
  position of \<open>x\<close>, \<open>vb\<close> the position of \<open>valueBefore\<close> (\<open>None\<close> for nil). It returns the
  final \<open>x\<close>, \<open>valueBefore\<close> and root slot.
\<close>

fun setLoop :: "gotype \<Rightarrow> nat \<Rightarrow> nat option \<Rightarrow> gval \<Rightarrow> nat \<times> nat option \<times> gval" where
  "setLoop (TPtr t) d vb root = setLoop t (Suc d) (Some d) (slot_update d (VPtr (zero t)) root)"
| "setLoop t d vb root = (d, vb, root)"

definition cannot_nil :: error where
  "cannot_nil = Err ''cannot nil a value pointer, this should be a pointer to a pointer''"

text \<open>
  \<open>set ptr\<close>: the argument is \<open>None\<close> for a nil pointer and \<open>Some v\<close> for a pointer to
  \<open>v\<close>. The result is the new content of the slot behind \<open>s.ptr\<close>; on an error the slot
  is left as it was. \<open>x.Elem()\<close> on a value that is no pointer panics.
\<close>

definition setBody :: "gotype \<Rightarrow> gval \<Rightarrow> gval option \<Rightarrow> error + gval" where
  "setBody T old ptr =
     (case T of
        TPtr t \<Rightarrow>
          (case setLoop t 0 None old of
             (d, vb, root) \<Rightarrow>
               (case ptr of
                  None \<Rightarrow>
                    (case vb of
                       None \<Rightarrow> Inl cannot_nil
                     | Some j \<Rightarrow> Inr (slot_update j VNil root))
                | Some v \<Rightarrow> Inr (slot_update d v root)))
      | _ \<Rightarrow> Inl (Panic ''reflect: call of reflect.Value.Elem on non-pointer Value''))"

definition set_ptr :: "pointerSetter \<Rightarrow> gval option \<Rightarrow> error + gval" where
  "set_ptr s ptr = setBody (ptr_type s) (ptr_elem s) ptr"

definition set_ptrC :: "pointerSetterC \<Rightarrow> gval option \<Rightarrow> (error + gval) \<times> pointerSetterC" where
  "set_ptrC s ptr = (setBody (ptr_type s) (ptr_elem s) ptr, s)"

section \<open>Byte cursor\<close>

text \<open>
  The reader \<open>*bytes.Reader\<close> is the list of bytes not yet read. \<open>ReadByte\<close> fails
  (\<open>None\<close>, for \<open>io.EOF\<close>) when nothing is left. \<open>Read n\<close> is \<open>r.Read(b)\<close> on a
  freshly made buffer \<open>b\<close> of \<open>n\<close> zero bytes, as the standard library implements
  it: \<open>io.EOF\<close> when nothing is left, whatever \<open>n\<close> is; otherwise it copies as many
  bytes as the buffer and the remainder allow and reports no error, so that a short
  read leaves the tail of the buffer zero. The result is the buffer and the reader
  after the call.
\<close>

definition ReadByte :: "byte list \<Rightarrow> (byte \<times> byte list) option" where
  "ReadByte r = (case r of [] \<Rightarrow> None | b # r' \<Rightarrow> Some (b, r'))"

definition Read :: "nat \<Rightarrow> byte list \<Rightarrow> (byte list \<times> byte list) option" where
  "Read n r =
     (if r = [] then None
      else Some (take n r @ replicate (n - length r) 0, drop n r))"

text \<open>
  \<open>binary.BigEndian.Uint32\<close> and \<open>Uint64\<close>; every buffer they are given here has
  4 and 8 bytes.
\<close>

definition Uint32 :: "byte list \<Rightarrow> 32 word" where
  "Uint32 b =
     ucast (b ! 3) OR push_bit 8 (ucast (b ! 2)) OR push_bit 16 (ucast (b ! 1))
       OR push_bit 24 (ucast (b ! 0))"

definition Uint64 :: "byte list \<Rightarrow> 64 word" where
  "Uint64 b =
     ucast (b ! 7) OR push_bit 8 (ucast (b ! 6)) OR push_bit 16 (ucast (b ! 5))
       OR push_bit 24 (ucast (b ! 4)) OR push_bit 32 (ucast (b ! 3))
       OR push_bit 40 (ucast (b ! 2)) OR push_bit 48 (ucast (b ! 1))
       OR push_bit 56 (ucast (b ! 0))"

text \<open>
  The loop \<open>for Total := 0; Total != Len; Total++\<close> that reads one byte at a time into
  \<open>buf[Total+off]\<close> and gives up (\<open>None\<close>) at the first failing \<open>ReadByte\<close>.
\<close>

function readLoop :: "nat \<Rightarrow> nat \<Rightarrow> nat \<Rightarrow> byte list \<Rightarrow> byte list \<Rightarrow> (byte list \<times> byte list) option" where
  "readLoop tot Len off buf r =
     (if tot \<noteq> Len then
        (case ReadByte r of
           None \<Rightarrow> None
         | Some (b, r') \<Rightarrow> readLoop (tot + 1) Len off (buf[tot + off := b]) r')
      else Some (buf, r))"
  by pat_completeness auto
termination
  by (relation "measure (\<lambda>(tot, Len, off, buf, r). length r)")
     (auto simp: ReadByte_def split: list.splits)

declare readLoop.simps [simp del]

section \<open>Term decoder\<close>

text \<open>\<open>processAtom\<close> with its local closure \<open>matchRest\<close>; \<open>Data[0]\<close> panics on no data.\<close>

definition matchRest :: "byte list \<Rightarrow> byte list \<Rightarrow> bool" where
  "matchRest Data d =
     (if int (length d) > int (length Data) - 1 then False
      else list_all (\<lambda>i. Data ! (i + 1) = d ! i) [0..<length d])"

definition processAtom :: "byte list \<Rightarrow> error + item" where
  "processAtom Data =
     (case Data of
        [] \<Rightarrow> Inl (Panic ''runtime error: index out of range [0] with length 0'')
      | c # rest \<Rightarrow>
          if c = 116 then
            (if \<not> matchRest Data [114, 117, 101] then Inr (IAtom Data) else Inr (IBool True))
          else if c = 102 then
            (if \<not> matchRest Data [97, 108, 115, 101] then Inr (IAtom Data) else Inr (IBool False))
          else if c = 110 then
            (if \<not> matchRest Data [105, 108] then Inr (IAtom Data) else Inr INil)
          else Inr (IAtom Data))"

text \<open>
  The cases of the \<open>switch DataType\<close> of \<open>processItem\<close> that do not recurse, one
  definition each: they take the reader after the tag byte and give the decoded
  \<open>Item\<close> and the reader after it.
\<close>

definition decodeAtom :: "byte list \<Rightarrow> error + item \<times> byte list" where
  "decodeAtom r =
     (case ReadByte r of
        None \<Rightarrow> Inl (Err ''atom information missing'')
      | Some (b, r1) \<Rightarrow>
          (case readLoop 0 (unat b) 0 (replicate (unat b) 0) r1 of
             None \<Rightarrow> Inl (Err ''atom size larger than remainder of array'')
           | Some (Data, r2) \<Rightarrow>
               (case processAtom Data of Inl e \<Rightarrow> Inl e | Inr Item \<Rightarrow> Inr (Item, r2))))"

definition decodeBinary :: "byte list \<Rightarrow> error + item \<times> byte list" where
  "decodeBinary r =
     (case Read 4 r of
        None \<Rightarrow> Inl (Err ''not enough bytes for list length'')
      | Some (lengthBytes, r1) \<Rightarrow>
          (case Read (unat (Uint32 lengthBytes)) r1 of
             None \<Rightarrow> Inl (Err ''string length is longer than remainder of array'')
           | Some (Item, r2) \<Rightarrow> Inr (IBytes Item, r2)))"

definition decodeSmallInt :: "byte list \<Rightarrow> error + item \<times> byte list" where
  "decodeSmallInt r =
     (case ReadByte r of
        None \<Rightarrow> Inl (Err ''failed to read small int'')
      | Some (i, r1) \<Rightarrow> Inr (IUint8 i, r1))"

definition decodeInt32 :: "byte list \<Rightarrow> error + item \<times> byte list" where
  "decodeInt32 r =
     (case Read 4 r of
        None \<Rightarrow> Inl (Err ''not enough bytes for int32'')
      | Some (b, r1) \<Rightarrow> Inr (IInt32 (Uint32 b), r1))"

text \<open>The accumulation loop of case \<open>'n'\<close>, with the running sum \<open>u\<close> and multiplier \<open>x\<close>.\<close>

function int64Loop :: "nat \<Rightarrow> nat \<Rightarrow> 64 word \<Rightarrow> 64 word \<Rightarrow> byte list \<Rightarrow> error + 64 word \<times> byte list" where
  "int64Loop i n u x r =
     (if i < n then
        (case ReadByte r of
           None \<Rightarrow> Inl (Err ''int64 length greater than array'')
         | Some (b, r') \<Rightarrow> int64Loop (i + 1) n (u + ucast b * x) (push_bit 8 x) r')
      else Inr (u, r))"
  by pat_completeness auto
termination
  by (relation "measure (\<lambda>(i, n, u, x, r). n - i)") auto

declare int64Loop.simps [simp del]

definition decodeInt64 :: "byte list \<Rightarrow> error + item \<times> byte list" where
  "decodeInt64 r =
     (case ReadByte r of
        None \<Rightarrow> Inl (Err ''unable to read int64 byte count'')
      | Some (encodedBytes, r1) \<Rightarrow>
          (case ReadByte r1 of
             None \<Rightarrow> Inl (Err ''unable to read int64 signature'')
           | Some (signatureChar, r2) \<Rightarrow>
               (let negative = (signatureChar = 1) in
                case int64Loop 0 (unat encodedBytes) 0 0 r2 of
                  Inl e \<Rightarrow> Inl e
                | Inr (u, r3) \<Rightarrow>
                    if negative then Inr (IInt64 (u * (- 1)), r3) else Inr (IInt64 u, r3))))"

definition decodeFloat :: "byte list \<Rightarrow> error + item \<times> byte list" where
  "decodeFloat r =
     (case Read 8 r of
        None \<Rightarrow> Inl (Err ''not enough bytes to decode'')
      | Some (encodedBytes, r1) \<Rightarrow> Inr (IFloat64 (Uint64 encodedBytes), r1))"

text \<open>
  Keys of the decoded \<open>map[interface{}]interface{}\<close>: slices and maps cannot be hashed
  (the assignment \<open>m[Key] = Value\<close> panics), two keys are the same key when Go's \<open>==\<close>
  on interface values says so (for doubles: no NaN equals anything, both zeros are
  equal), and assigning to a key that is present replaces the value and also stores the
  new key in place of the equal old one (the runtime updates the key of a map whose keys
  are interfaces, so after \<open>+0\<close> and then \<open>-0\<close> the map holds \<open>-0\<close>).
\<close>

definition f64_isNaN :: "64 word \<Rightarrow> bool" where
  "f64_isNaN w = (w AND 0x7FFFFFFFFFFFFFFF > 0x7FF0000000000000)"

definition f64_eq :: "64 word \<Rightarrow> 64 word \<Rightarrow> bool" where
  "f64_eq a b =
     (\<not> f64_isNaN a \<and> \<not> f64_isNaN b \<and>
      (a = b \<or> (a AND 0x7FFFFFFFFFFFFFFF = 0 \<and> b AND 0x7FFFFFFFFFFFFFFF = 0)))"

fun hashable :: "item \<Rightarrow> bool" where
  "hashable (ISlice xs) = False"
| "hashable (IMap m) = False"
| "hashable (IBytes b) = False"
| "hashable x = True"

fun key_eq :: "item \<Rightarrow> item \<Rightarrow> bool" where
  "key_eq (IFloat64 a) (IFloat64 b) = f64_eq a b"
| "key_eq a b = (a = b)"

fun map_assign :: "(item \<times> item) list \<Rightarrow> item \<Rightarrow> item \<Rightarrow> (item \<times> item) list" where
  "map_assign [] k v = [(k, v)]"
| "map_assign ((k', v') # m) k v =
     (if key_eq k' k then (k, v) # m else (k', v') # map_assign m k v)"

definition keyString :: "item \<Rightarrow> item" where
  "keyString Key = (case Key of IBytes x \<Rightarrow> IString x | _ \<Rightarrow> Key)"

text \<open>
  The recursive part of \<open>processItem\<close>. Every nested call of the source is
  \<open>processItem(&pointerSetter{ptr: reflect.ValueOf(&x)}, r)\<close> with \<open>x\<close> an
  \<open>interface{}\<close> variable, which reads the tag, decodes the item and stores it in \<open>x\<close>
  unchanged: this is \<open>processAny\<close> (lemma \<open>processItem_interface\<close> below relates it to
  \<open>processItem\<close>). \<open>decodeItem\<close> is the \<open>switch DataType\<close>, \<open>listLoop\<close> and \<open>mapLoop\<close>
  are the loops of the cases \<open>'l'\<close> and \<open>'t'\<close>.
\<close>

function processAny :: "byte list \<Rightarrow> error + item \<times> byte list"
  and decodeItem :: "byte \<Rightarrow> byte list \<Rightarrow> error + item \<times> byte list"
  and listLoop :: "nat \<Rightarrow> nat \<Rightarrow> item list \<Rightarrow> byte list \<Rightarrow> error + item list \<times> byte list"
  and mapLoop :: "32 word \<Rightarrow> 32 word \<Rightarrow> (item \<times> item) list \<Rightarrow> byte list
                   \<Rightarrow> error + (item \<times> item) list \<times> byte list"
where
  "processAny r =
     (case ReadByte r of
        None \<Rightarrow> Inl (Err ''not long enough to include data type'')
      | Some (DataType, r1) \<Rightarrow> decodeItem DataType r1)"
| "decodeItem DataType r =
     (if DataType = 115 then decodeAtom r
      else if DataType = 106 then Inr (ISlice [], r)
      else if DataType = 108 then
        (case Read 4 r of
           None \<Rightarrow> Inl (Err ''not enough bytes for list length'')
         | Some (lengthBytes, r1) \<Rightarrow>
             (let l = Uint32 lengthBytes in
              case listLoop 0 (unat l) (replicate (unat l) INil) r1 of
                Inl e \<Rightarrow> Inl e
              | Inr (Item, r2) \<Rightarrow> Inr (ISlice Item, r2)))
      else if DataType = 109 then decodeBinary r
      else if DataType = 97 then decodeSmallInt r
      else if DataType = 98 then decodeInt32 r
      else if DataType = 110 then decodeInt64 r
      else if DataType = 70 then decodeFloat r
      else if DataType = 116 then
        (case Read 4 r of
           None \<Rightarrow> Inl (Err ''not enough bytes for int32'')
         | Some (b, r1) \<Rightarrow>
             (case mapLoop 0 (Uint32 b) [] r1 of
                Inl e \<Rightarrow> Inl e
              | Inr (m, r2) \<Rightarrow> Inr (IMap m, r2)))
      else Inl (Err ''unknown data type''))"
| "listLoop i l Item r =
     (if i < l then
        (case processAny r of
           Inl err \<Rightarrow> Inl err
         | Inr (x, r1) \<Rightarrow> listLoop (i + 1) l (Item[i := x]) r1)
      else Inr (Item, r))"
| "mapLoop i l m r =
     (if i < l then
        (case processAny r of
           Inl err \<Rightarrow> Inl err
         | Inr (Key0, r1) \<Rightarrow>
             (let Key = keyString Key0 in
              case processAny r1 of
                Inl err \<Rightarrow> Inl err
              | Inr (Value, r2) \<Rightarrow>
                  if hashable Key then mapLoop (i + 1) l (map_assign m Key Value) r2
                  else Inl (Panic ''runtime error: hash of unhashable type'')))
      else Inr (m, r))"
  by pat_completeness auto


lemma ReadByte_length: "ReadByte r = Some (b, r') \<Longrightarrow> length r' < length r"
  by (auto simp: ReadByte_def split: list.splits)

lemma Read_length: "Read n r = Some (b, r') \<Longrightarrow> length r' \<le> length r"
  by (auto simp: Read_def split: if_splits)

lemma readLoop_length: "readLoop tot Len off buf r = Some (b, r') \<Longrightarrow> length r' \<le> length r"
proof (induction tot Len off buf r rule: readLoop.induct)
  case (1 tot Len off buf r)
  show ?case
  proof (cases "tot \<noteq> Len")
    case True
    with "1.prems" obtain c r1 where rb: "ReadByte r = Some (c, r1)"
      and rec: "readLoop (tot + 1) Len off (buf[tot + off := c]) r1 = Some (b, r')"
      by (subst (asm) readLoop.simps) (auto split: option.splits)
    from "1.IH"[OF True rb refl rec] ReadByte_length[OF rb]
    show ?thesis by simp
  next
    case False
    with "1.prems" show ?thesis by (subst (asm) readLoop.simps) simp
  qed
qed

lemma int64Loop_length: "int64Loop i n u x r = Inr (w, r') \<Longrightarrow> length r' \<le> length r"
proof (induction i n u x r rule: int64Loop.induct)
  case (1 i n u x r)
  show ?case
  proof (cases "i < n")
    case True
    with "1.prems" obtain c r1 where rb: "ReadByte r = Some (c, r1)"
      and rec: "int64Loop (i + 1) n (u + ucast c * x) (push_bit 8 x) r1 = Inr (w, r')"
      by (subst (asm) int64Loop.simps) (auto split: option.splits)
    from "1.IH"[OF True rb refl rec] ReadByte_length[OF rb]
    show ?thesis by simp
  next
    case False
    with "1.prems" show ?thesis by (subst (asm) int64Loop.simps) simp
  qed
qed

lemma decodeAtom_length: "decodeAtom r = Inr (x, r') \<Longrightarrow> length r' \<le> length r"
  by (auto simp: decodeAtom_def split: option.splits sum.splits
      dest!: ReadByte_length readLoop_length)

lemma decodeBinary_length: "decodeBinary r = Inr (x, r') \<Longrightarrow> length r' \<le> length r"
  by (auto simp: decodeBinary_def split: option.splits dest!: Read_length)

lemma decodeSmallInt_length: "decodeSmallInt r = Inr (x, r') \<Longrightarrow> length r' \<le> length r"
  by (auto simp: decodeSmallInt_def split: option.splits dest!: ReadByte_length)

lemma decodeInt32_length: "decodeInt32 r = Inr (x, r') \<Longrightarrow> length r' \<le> length r"
  by (auto simp: decodeInt32_def split: option.splits dest!: Read_length)

lemma decodeInt64_length: "decodeInt64 r = Inr (x, r') \<Longrightarrow> length r' \<le> length r"
  by (auto simp: decodeInt64_def Let_def split: option.splits sum.splits if_splits
      dest!: ReadByte_length int64Loop_length)

lemma decodeFloat_length: "decodeFloat r = Inr (x, r') \<Longrightarrow> length r' \<le> length r"
  by (auto simp: decodeFloat_def split: option.splits dest!: Read_length)

lemmas leaf_lengths = decodeAtom_length decodeBinary_length decodeSmallInt_length
  decodeInt32_length decodeInt64_length decodeFloat_length


lemma decode_dom_length:
  "processAny_decodeItem_listLoop_mapLoop_dom (Inl (Inl r)) \<Longrightarrow>
     (\<forall>x r'. processAny r = Inr (x, r') \<longrightarrow> length r' < length r)"
  "processAny_decodeItem_listLoop_mapLoop_dom (Inl (Inr (DataType, r))) \<Longrightarrow>
     (\<forall>x r'. decodeItem DataType r = Inr (x, r') \<longrightarrow> length r' \<le> length r)"
  "processAny_decodeItem_listLoop_mapLoop_dom (Inr (Inl (i, l, Item, r))) \<Longrightarrow>
     (\<forall>x r'. listLoop i l Item r = Inr (x, r') \<longrightarrow> length r' \<le> length r)"
  "processAny_decodeItem_listLoop_mapLoop_dom (Inr (Inr (j, k, m, r))) \<Longrightarrow>
     (\<forall>x r'. mapLoop j k m r = Inr (x, r') \<longrightarrow> length r' \<le> length r)"
proof (induct rule: processAny_decodeItem_listLoop_mapLoop.pinduct)
  case (1 r)
  show ?case
  proof (intro allI impI)
    fix x r' assume a: "processAny r = Inr (x, r')"
    then obtain dt r1 where rb: "ReadByte r = Some (dt, r1)" and d: "decodeItem dt r1 = Inr (x, r')"
      by (auto simp: processAny.psimps[OF 1(1)] split: option.splits)
    from 1(2)[OF rb refl] d have "length r' \<le> length r1" by blast
    with ReadByte_length[OF rb] show "length r' < length r" by simp
  qed
next
  case (2 DataType r)
  show ?case
  proof (intro allI impI)
    fix x r' assume a: "decodeItem DataType r = Inr (x, r')"
    consider (list) "DataType = 108" | (map) "DataType = 116" | (leaf) "DataType \<noteq> 108" "DataType \<noteq> 116"
      by blast
    then show "length r' \<le> length r"
    proof cases
      case list
      from a[unfolded decodeItem.psimps[OF 2(1)]] list
      obtain lb r1 xs where rd: "Read 4 r = Some (lb, r1)"
        and ll: "listLoop 0 (unat (Uint32 lb)) (replicate (unat (Uint32 lb)) INil) r1 = Inr (xs, r')"
        by (auto simp: Let_def split: option.splits sum.splits)
      from list have c: "DataType \<noteq> 115" "DataType \<noteq> 106" by simp_all
      from 2(2)[OF c list rd refl refl] ll have "length r' \<le> length r1" by blast
      with Read_length[OF rd] show ?thesis by simp
    next
      case map
      from a[unfolded decodeItem.psimps[OF 2(1)]] map
      obtain lb r1 xs where rd: "Read 4 r = Some (lb, r1)"
        and ll: "mapLoop 0 (Uint32 lb) [] r1 = Inr (xs, r')"
        by (auto simp: Let_def split: option.splits sum.splits)
      from map have c: "DataType \<noteq> 115" "DataType \<noteq> 106" "DataType \<noteq> 108" "DataType \<noteq> 109"
        "DataType \<noteq> 97" "DataType \<noteq> 98" "DataType \<noteq> 110" "DataType \<noteq> 70" by simp_all
      from 2(3)[OF c map rd refl] ll have "length r' \<le> length r1" by blast
      with Read_length[OF rd] show ?thesis by simp
    next
      case leaf
      from a[unfolded decodeItem.psimps[OF 2(1)]] leaf show ?thesis
        by (auto split: if_splits dest: leaf_lengths)
    qed
  qed
next
  case (3 i l Item r)
  show ?case
  proof (intro allI impI)
    fix x r' assume a: "listLoop i l Item r = Inr (x, r')"
    show "length r' \<le> length r"
    proof (cases "i < l")
      case True
      with a obtain y r1 where p: "processAny r = Inr (y, r1)"
        and ll: "listLoop (i + 1) l (Item[i := y]) r1 = Inr (x, r')"
        by (auto simp: listLoop.psimps[OF 3(1)] split: sum.splits)
      from 3(2)[OF True] p have "length r1 < length r" by blast
      moreover from 3(3)[OF True p refl] ll have "length r' \<le> length r1" by blast
      ultimately show ?thesis by simp
    next
      case False
      with a show ?thesis by (simp add: listLoop.psimps[OF 3(1)])
    qed
  qed
next
  case (4 j k m r)
  show ?case
  proof (intro allI impI)
    fix x r' assume a: "mapLoop j k m r = Inr (x, r')"
    show "length r' \<le> length r"
    proof (cases "j < k")
      case True
      with a obtain ky r1 v r2 where p: "processAny r = Inr (ky, r1)"
        and q: "processAny r1 = Inr (v, r2)" and h: "hashable (keyString ky)"
        and ll: "mapLoop (j + 1) k (map_assign m (keyString ky) v) r2 = Inr (x, r')"
        by (auto simp: mapLoop.psimps[OF 4(1)] Let_def split: sum.splits if_splits)
      from 4(2)[OF True] p have "length r1 < length r" by blast
      moreover from 4(3)[OF True p refl refl] q have "length r2 < length r1" by blast
      moreover from 4(4)[OF True p refl refl q refl h] ll have "length r' \<le> length r2" by blast
      ultimately show ?thesis by simp
    next
      case False
      with a show ?thesis by (simp add: mapLoop.psimps[OF 4(1)])
    qed
  qed
qed

termination processAny
proof (relation "measure (\<lambda>a. case a of
    Inl (Inl r) \<Rightarrow> 3 * length r
  | Inl (Inr (dt, r)) \<Rightarrow> 3 * length r + 2
  | Inr (Inl (i, l, Item, r)) \<Rightarrow> 3 * length r + 1
  | Inr (Inr (j, k, m, r)) \<Rightarrow> 3 * length r + 1)", goal_cases)
  case 1
  show ?case by simp
next
  case (2 r x2 x y)
  then show ?case using ReadByte_length[of r x y] by auto
next
  case (3 DataType r x2 x y xa)
  then show ?case using Read_length[of 4 r x y] by auto
next
  case (4 DataType r x2 x y)
  then show ?case using Read_length[of 4 r x y] by auto
next
  case (5 i l Item r)
  then show ?case by simp
next
  case (6 i l Item r b x y)
  then show ?case using decode_dom_length(1)[of r] by auto
next
  case (7 i l m r)
  then show ?case by simp
next
  case (8 i l m r b x y xa)
  then show ?case using decode_dom_length(1)[of r] by auto
next
  case (9 i l m r b x y xa ba xb ya)
  then show ?case using decode_dom_length(1)[of r] decode_dom_length(1)[of y] by auto
qed

declare processAny.simps [simp del] decodeItem.simps [simp del] listLoop.simps [simp del]
  mapLoop.simps [simp del]




section \<open>Raw capture\<close>

text \<open>
  \<open>processRawData\<close>. \<open>rawItem\<close> is its \<open>switch DataType\<close>, which builds the captured
  \<open>bytes\<close>; \<open>rawListLoop\<close> and \<open>rawMapLoop\<close> are the loops of the cases \<open>'l'\<close> and
  \<open>'t'\<close>. Their nested calls \<open>processRawData(DataType, itemSetter, r, false)\<close> store
  the captured bytes in the local \<open>raw\<close>, which the loop appends to \<open>bytes\<close>.
  \<open>make([]byte, 5, cap)\<close> panics when the capacity, computed in \<open>uint32\<close>, is below
  the length; in case \<open>'n'\<close> the length \<open>encodedBytes+2\<close> is computed in \<open>uint8\<close>, and
  the two stores \<open>bytes[0]\<close>, \<open>bytes[1]\<close> panic when it wraps to 0 or 1.
\<close>

definition rawAtom :: "byte list \<Rightarrow> error + byte list \<times> byte list" where
  "rawAtom r =
     (case ReadByte r of
        None \<Rightarrow> Inl (Err ''atom information missing'')
      | Some (b, r1) \<Rightarrow>
          (let Len = unat b; bytes = (replicate (Len + 2) 0)[0 := 115, 1 := b] in
           case readLoop 0 Len 2 bytes r1 of
             None \<Rightarrow> Inl (Err ''atom size larger than remainder of array'')
           | Some (bytes', r2) \<Rightarrow> Inr (bytes', r2)))"

definition rawBinary :: "byte list \<Rightarrow> error + byte list \<times> byte list" where
  "rawBinary r =
     (case Read 4 r of
        None \<Rightarrow> Inl (Err ''not enough bytes for list length'')
      | Some (lengthBytes, r1) \<Rightarrow>
          (let Len = unat (Uint32 lengthBytes);
               bytes = (109 # lengthBytes) @ replicate Len 0 in
           case readLoop 0 Len 5 bytes r1 of
             None \<Rightarrow> Inl (Err ''atom size larger than remainder of array'')
           | Some (bytes', r2) \<Rightarrow> Inr (bytes', r2)))"

definition rawSmallInt :: "byte list \<Rightarrow> error + byte list \<times> byte list" where
  "rawSmallInt r =
     (case ReadByte r of
        None \<Rightarrow> Inl (Err ''failed to read small int'')
      | Some (i, r1) \<Rightarrow> Inr ([97, i], r1))"

definition rawInt32 :: "byte list \<Rightarrow> error + byte list \<times> byte list" where
  "rawInt32 r =
     (case Read 4 r of
        None \<Rightarrow> Inl (Err ''not enough bytes for int32'')
      | Some (b, r1) \<Rightarrow> Inr (98 # b, r1))"

definition rawInt64 :: "byte list \<Rightarrow> error + byte list \<times> byte list" where
  "rawInt64 r =
     (case ReadByte r of
        None \<Rightarrow> Inl (Err ''unable to read int64 byte count'')
      | Some (encodedBytes, r1) \<Rightarrow>
          (let n = unat (encodedBytes + 2) in
           if n < 2 then Inl (Panic ''runtime error: index out of range'')
           else
             (let bytes = (replicate n 0)[0 := 110, 1 := encodedBytes] in
              case readLoop 0 (unat encodedBytes) 2 bytes r1 of
                None \<Rightarrow> Inl (Err ''int size larger than remainder of array'')
              | Some (bytes', r2) \<Rightarrow> Inr (bytes', r2))))"

definition rawFloat :: "byte list \<Rightarrow> error + byte list \<times> byte list" where
  "rawFloat r =
     (let bytes = (replicate 9 0)[0 := 70] in
      case readLoop 0 8 1 bytes r of
        None \<Rightarrow> Inl (Err ''float size larger than remainder of array'')
      | Some (bytes', r1) \<Rightarrow> Inr (bytes', r1))"

definition cap_out_of_range :: error where
  "cap_out_of_range = Panic ''runtime error: makeslice: cap out of range''"

function rawItem :: "byte \<Rightarrow> byte list \<Rightarrow> error + byte list \<times> byte list"
  and rawListLoop :: "nat \<Rightarrow> nat \<Rightarrow> byte list \<Rightarrow> byte list \<Rightarrow> error + byte list \<times> byte list"
  and rawMapLoop :: "nat \<Rightarrow> nat \<Rightarrow> byte list \<Rightarrow> byte list \<Rightarrow> error + byte list \<times> byte list"
where
  "rawItem DataType r =
     (if DataType = 115 then rawAtom r
      else if DataType = 106 then Inr ([106], r)
      else if DataType = 108 then
        (case Read 4 r of
           None \<Rightarrow> Inl (Err ''not enough bytes for list length'')
         | Some (lengthBytes, r1) \<Rightarrow>
             (let l = Uint32 lengthBytes in
              if unat (l * 3 + 5) < 5 then Inl cap_out_of_range
              else rawListLoop 0 (unat l) (108 # lengthBytes) r1))
      else if DataType = 109 then rawBinary r
      else if DataType = 97 then rawSmallInt r
      else if DataType = 98 then rawInt32 r
      else if DataType = 110 then rawInt64 r
      else if DataType = 70 then rawFloat r
      else if DataType = 116 then
        (case Read 4 r of
           None \<Rightarrow> Inl (Err ''not enough bytes for list length'')
         | Some (lengthBytes, r1) \<Rightarrow>
             (let l = Uint32 lengthBytes in
              if unat (l * 6 + 5) < 5 then Inl cap_out_of_range
              else rawMapLoop 0 (unat l) (116 # lengthBytes) r1))
      else Inl (Err ''unknown data type''))"
| "rawListLoop i l bytes r =
     (if i < l then
        (case ReadByte r of
           None \<Rightarrow> Inl (Err ''not long enough to include data type'')
         | Some (DataType, r1) \<Rightarrow>
             (case rawItem DataType r1 of
                Inl err \<Rightarrow> Inl err
              | Inr (raw, r2) \<Rightarrow> rawListLoop (i + 1) l (bytes @ raw) r2))
      else Inr (bytes, r))"
| "rawMapLoop i l bytes r =
     (if i < l then
        (case ReadByte r of
           None \<Rightarrow> Inl (Err ''not long enough to include data type'')
         | Some (DataType, r1) \<Rightarrow>
             (case rawItem DataType r1 of
                Inl err \<Rightarrow> Inl err
              | Inr (raw, r2) \<Rightarrow>
                  (case ReadByte r2 of
                     None \<Rightarrow> Inl (Err ''not long enough to include data type'')
                   | Some (DataType', r3) \<Rightarrow>
                       (case rawItem DataType' r3 of
                          Inl err \<Rightarrow> Inl err
                        | Inr (raw', r4) \<Rightarrow>
                            rawMapLoop (i + 1) l ((bytes @ raw) @ raw') r4))))
      else Inr (bytes, r))"
  by pat_completeness auto

lemma rawAtom_length: "rawAtom r = Inr (x, r') \<Longrightarrow> length r' \<le> length r"
  by (auto simp: rawAtom_def Let_def split: option.splits
      dest!: ReadByte_length readLoop_length)

lemma rawBinary_length: "rawBinary r = Inr (x, r') \<Longrightarrow> length r' \<le> length r"
  by (auto simp: rawBinary_def Let_def split: option.splits
      dest!: Read_length readLoop_length)

lemma rawSmallInt_length: "rawSmallInt r = Inr (x, r') \<Longrightarrow> length r' \<le> length r"
  by (auto simp: rawSmallInt_def split: option.splits dest!: ReadByte_length)

lemma rawInt32_length: "rawInt32 r = Inr (x, r') \<Longrightarrow> length r' \<le> length r"
  by (auto simp: rawInt32_def split: option.splits dest!: Read_length)

lemma rawInt64_length: "rawInt64 r = Inr (x, r') \<Longrightarrow> length r' \<le> length r"
  by (auto simp: rawInt64_def Let_def split: option.splits if_splits
      dest!: ReadByte_length readLoop_length)

lemma rawFloat_length: "rawFloat r = Inr (x, r') \<Longrightarrow> length r' \<le> length r"
  by (auto simp: rawFloat_def Let_def split: option.splits dest!: readLoop_length)

lemmas raw_leaf_lengths = rawAtom_length rawBinary_length rawSmallInt_length
  rawInt32_length rawInt64_length rawFloat_length

lemma raw_dom_length:
  "rawItem_rawListLoop_rawMapLoop_dom (Inl (DataType, r)) \<Longrightarrow>
     (\<forall>x r'. rawItem DataType r = Inr (x, r') \<longrightarrow> length r' \<le> length r)"
  "rawItem_rawListLoop_rawMapLoop_dom (Inr (Inl (i, l, bytes, r))) \<Longrightarrow>
     (\<forall>x r'. rawListLoop i l bytes r = Inr (x, r') \<longrightarrow> length r' \<le> length r)"
  "rawItem_rawListLoop_rawMapLoop_dom (Inr (Inr (j, k, bytes', r))) \<Longrightarrow>
     (\<forall>x r'. rawMapLoop j k bytes' r = Inr (x, r') \<longrightarrow> length r' \<le> length r)"
proof (induct rule: rawItem_rawListLoop_rawMapLoop.pinduct)
  case (1 DataType r)
  show ?case
  proof (intro allI impI)
    fix x r' assume a: "rawItem DataType r = Inr (x, r')"
    consider (list) "DataType = 108" | (map) "DataType = 116"
      | (leaf) "DataType \<noteq> 108" "DataType \<noteq> 116"
      by blast
    then show "length r' \<le> length r"
    proof cases
      case list
      from a[unfolded rawItem.psimps[OF 1(1)]] list
      obtain lb r1 where rd: "Read 4 r = Some (lb, r1)"
        and cap: "\<not> unat (Uint32 lb * 3 + 5) < 5"
        and ll: "rawListLoop 0 (unat (Uint32 lb)) (108 # lb) r1 = Inr (x, r')"
        by (auto simp: Let_def split: option.splits if_splits)
      from list have c: "DataType \<noteq> 115" "DataType \<noteq> 106" by simp_all
      from 1(2)[OF c list rd refl refl cap] ll have "length r' \<le> length r1" by blast
      with Read_length[OF rd] show ?thesis by simp
    next
      case map
      from a[unfolded rawItem.psimps[OF 1(1)]] map
      obtain lb r1 where rd: "Read 4 r = Some (lb, r1)"
        and cap: "\<not> unat (Uint32 lb * 6 + 5) < 5"
        and ll: "rawMapLoop 0 (unat (Uint32 lb)) (116 # lb) r1 = Inr (x, r')"
        by (auto simp: Let_def split: option.splits if_splits)
      from map have c: "DataType \<noteq> 115" "DataType \<noteq> 106" "DataType \<noteq> 108"
        "DataType \<noteq> 109" "DataType \<noteq> 97" "DataType \<noteq> 98" "DataType \<noteq> 110"
        "DataType \<noteq> 70" by simp_all
      from 1(3)[OF c map rd refl refl cap] ll have "length r' \<le> length r1" by blast
      with Read_length[OF rd] show ?thesis by simp
    next
      case leaf
      from a[unfolded rawItem.psimps[OF 1(1)]] leaf show ?thesis
        by (auto split: if_splits dest: raw_leaf_lengths)
    qed
  qed
next
  case (2 i l bytes r)
  show ?case
  proof (intro allI impI)
    fix x r' assume a: "rawListLoop i l bytes r = Inr (x, r')"
    show "length r' \<le> length r"
    proof (cases "i < l")
      case True
      with a obtain dt r1 raw r2 where rb: "ReadByte r = Some (dt, r1)"
        and p: "rawItem dt r1 = Inr (raw, r2)"
        and ll: "rawListLoop (i + 1) l (bytes @ raw) r2 = Inr (x, r')"
        by (auto simp: rawListLoop.psimps[OF 2(1)] split: sum.splits option.splits)
      from 2(2)[OF True rb refl] p have "length r2 \<le> length r1" by blast
      moreover from 2(3)[OF True rb refl p refl] ll have "length r' \<le> length r2" by blast
      ultimately show ?thesis using ReadByte_length[OF rb] by simp
    next
      case False
      with a show ?thesis by (simp add: rawListLoop.psimps[OF 2(1)])
    qed
  qed
next
  case (3 j k bytes' r)
  show ?case
  proof (intro allI impI)
    fix x r' assume a: "rawMapLoop j k bytes' r = Inr (x, r')"
    show "length r' \<le> length r"
    proof (cases "j < k")
      case True
      with a obtain dt r1 raw r2 dt' r3 raw' r4 where rb: "ReadByte r = Some (dt, r1)"
        and p: "rawItem dt r1 = Inr (raw, r2)"
        and rb': "ReadByte r2 = Some (dt', r3)"
        and p': "rawItem dt' r3 = Inr (raw', r4)"
        and ll: "rawMapLoop (j + 1) k ((bytes' @ raw) @ raw') r4 = Inr (x, r')"
        by (auto simp: rawMapLoop.psimps[OF 3(1)] split: sum.splits option.splits)
      from 3(2)[OF True rb refl] p have "length r2 \<le> length r1" by blast
      moreover from 3(3)[OF True rb refl p refl rb' refl] p'
      have "length r4 \<le> length r3" by blast
      moreover from 3(4)[OF True rb refl p refl rb' refl p' refl] ll
      have "length r' \<le> length r4" by blast
      ultimately show ?thesis using ReadByte_length[OF rb] ReadByte_length[OF rb'] by simp
    next
      case False
      with a show ?thesis by (simp add: rawMapLoop.psimps[OF 3(1)])
    qed
  qed
qed

termination rawItem
proof (relation "measure (\<lambda>a. case a of
    Inl (dt, r) \<Rightarrow> 2 * length r + 1
  | Inr (Inl (i, l, bytes, r)) \<Rightarrow> 2 * length r
  | Inr (Inr (j, k, bytes, r)) \<Rightarrow> 2 * length r)", goal_cases)
  case 1
  show ?case by simp
next
  case (2 DataType r x2 x y xa)
  then show ?case using Read_length[of 4 r x y] by auto
next
  case (3 DataType r x2 x y xa)
  then show ?case using Read_length[of 4 r x y] by auto
next
  case (4 i l bytes r x2 x y)
  then show ?case using ReadByte_length[of r x y] by auto
next
  case (5 i l bytes r x2 x y b xa ya)
  then show ?case using ReadByte_length[of r x y] raw_dom_length(1)[of x y] by auto
next
  case (6 i l bytes r x2 x y)
  then show ?case using ReadByte_length[of r x y] by auto
next
  case (7 i l bytes r x2 x y b xa ya x2a xb yb)
  then show ?case
    using ReadByte_length[of r x y] raw_dom_length(1)[of x y] ReadByte_length[of ya xb yb]
    by auto
next
  case (8 i l bytes r x2 x y b xa ya x2a xb yb ba xc yc)
  then show ?case
    using ReadByte_length[of r x y] raw_dom_length(1)[of x y] ReadByte_length[of ya xb yb]
      raw_dom_length(1)[of xb yb]
    by auto
qed

declare rawItem.simps [simp del] rawListLoop.simps [simp del] rawMapLoop.simps [simp del]

section \<open>Cast engine\<close>

text \<open>\<open>&pointerSetter{ptr: reflect.New(T)}\<close>: a setter on a fresh zero slot of type \<open>T\<close>.\<close>

definition newSetter :: "gotype \<Rightarrow> pointerSetter" where
  "newSetter T = \<lparr>ptr_type = TPtr T, ptr_elem = zero T\<rparr>"

definition unable :: error where
  "unable = Err ''unable to unpack to pointer specified''"

definition bytes_val :: "byte list \<Rightarrow> gval" where
  "bytes_val bs = VSlice (map VUint8 bs)"

fun isInterface :: "gotype \<Rightarrow> bool" where
  "isInterface TInterface = True"
| "isInterface t = False"

fun isUncastedResult :: "gotype \<Rightarrow> bool" where
  "isUncastedResult TUncastedResult = True"
| "isUncastedResult t = False"

fun isInterfaceSlice :: "gotype \<Rightarrow> bool" where
  "isInterfaceSlice (TSlice t) = isInterface t"
| "isInterfaceSlice t = False"

fun isInterfaceMap :: "gotype \<Rightarrow> bool" where
  "isInterfaceMap (TMap k v) = (isInterface k \<and> isInterface v)"
| "isInterfaceMap t = False"

text \<open>The kinds \<open>reflect.Struct\<close> and \<open>reflect.Map\<close> of the second \<open>switch\<close> on a map.\<close>

fun structType :: "gotype \<Rightarrow> (hook \<times> field list) option" where
  "structType (TStruct h fs) = Some (h, fs)"
| "structType t = None"

fun mapType :: "gotype \<Rightarrow> (gotype \<times> gotype) option" where
  "mapType (TMap k v) = Some (k, v)"
| "mapType t = None"

text \<open>The type switch \<open>switch str := k.(type)\<close> with its one case \<open>string\<close>.\<close>

fun stringKey :: "item \<Rightarrow> byte list option" where
  "stringKey (IString str) = Some str"
| "stringKey k = None"

fun isUint8 :: "gotype \<Rightarrow> bool" where
  "isUint8 TUint8 = True"
| "isUint8 t = False"

text \<open>
  The inner type switches \<open>switch Ptr.(type)\<close> of the cases of \<open>handleItemCasting\<close> that
  do not recurse. A case without \<open>default\<close> falls through to the error at the end of
  the function.
\<close>

definition castAtom :: "byte list \<Rightarrow> gotype \<Rightarrow> pointerSetter \<Rightarrow> error + gval" where
  "castAtom x Ptr setter =
     (case Ptr of TAtom \<Rightarrow> set_ptr setter (Some (VAtom x)) | _ \<Rightarrow> Inl unable)"

definition castInt64 :: "64 word \<Rightarrow> gotype \<Rightarrow> pointerSetter \<Rightarrow> error + gval" where
  "castInt64 x Ptr setter =
     (case Ptr of
        TInt \<Rightarrow> set_ptr setter (Some (VInt x))
      | TInt64 \<Rightarrow> set_ptr setter (Some (VInt64 x))
      | _ \<Rightarrow> Inl (Err ''could not de-serialize into int''))"

definition castInt32 :: "32 word \<Rightarrow> gotype \<Rightarrow> pointerSetter \<Rightarrow> error + gval" where
  "castInt32 x Ptr setter =
     (case Ptr of
        TInt \<Rightarrow> set_ptr setter (Some (VInt (scast x)))
      | TInt32 \<Rightarrow> set_ptr setter (Some (VInt32 x))
      | _ \<Rightarrow> Inl (Err ''could not de-serialize into int''))"

definition castFloat64 :: "64 word \<Rightarrow> gotype \<Rightarrow> pointerSetter \<Rightarrow> error + gval" where
  "castFloat64 x Ptr setter =
     (case Ptr of
        TFloat64 \<Rightarrow> set_ptr setter (Some (VFloat64 x))
      | _ \<Rightarrow> Inl (Err ''could not de-serialize into float64''))"

definition castUint8 :: "8 word \<Rightarrow> gotype \<Rightarrow> pointerSetter \<Rightarrow> error + gval" where
  "castUint8 x Ptr setter =
     (case Ptr of
        TUint \<Rightarrow> set_ptr setter (Some (VUint (ucast x)))
      | TUint8 \<Rightarrow> set_ptr setter (Some (VUint8 x))
      | TInt \<Rightarrow> set_ptr setter (Some (VInt (ucast x)))
      | _ \<Rightarrow> Inl (Err ''could not de-serialize into uint8''))"

definition castString :: "byte list \<Rightarrow> gotype \<Rightarrow> pointerSetter \<Rightarrow> error + gval" where
  "castString x Ptr setter =
     (case Ptr of
        TString \<Rightarrow> set_ptr setter (Some (VString x))
      | _ \<Rightarrow> Inl (Err ''could not de-serialize into string''))"

definition castBytes :: "byte list \<Rightarrow> gotype \<Rightarrow> pointerSetter \<Rightarrow> error + gval" where
  "castBytes x Ptr setter =
     (case Ptr of
        TString \<Rightarrow> set_ptr setter (Some (VString x))
      | TSlice t \<Rightarrow>
          if isUint8 t then set_ptr setter (Some (bytes_val x))
          else Inl (Err ''could not de-serialize into string'')
      | _ \<Rightarrow> Inl (Err ''could not de-serialize into string''))"

definition castBool :: "bool \<Rightarrow> gotype \<Rightarrow> pointerSetter \<Rightarrow> error + gval" where
  "castBool x Ptr setter =
     (case Ptr of
        TAtom \<Rightarrow>
          (let p = (if x then [116, 114, 117, 101] else [102, 97, 108, 115, 101])
           in set_ptr setter (Some (VAtom p)))
      | TBool \<Rightarrow> set_ptr setter (Some (VBool x))
      | _ \<Rightarrow> Inl unable)"

definition castNil :: "gotype \<Rightarrow> pointerSetter \<Rightarrow> error + gval" where
  "castNil Ptr setter =
     (case Ptr of
        TAtom \<Rightarrow> set_ptr setter (Some (VAtom [110, 105, 108]))
      | _ \<Rightarrow> set_ptr setter None)"

text \<open>
  \<open>reflect.MakeSlice\<close> panics unless the type is of kind slice; the element type of
  the named byte slices is \<open>uint8\<close>.
\<close>

fun sliceElemType :: "gotype \<Rightarrow> gotype option" where
  "sliceElemType (TSlice t) = Some t"
| "sliceElemType TRawData = Some TUint8"
| "sliceElemType TRawMessage = Some TUint8"
| "sliceElemType t = None"

text \<open>
  Modelled from the spec: the field enumeration of the package
  \<open>github.com/jakemakesstuff/structs\<close>, which is not part of the sources ("given a
  destination record type, enumerate its fields with an associated lookup key and an
  optional skip marker"). \<open>s.Fields()\<close> is the field list of the struct type,
  \<open>field.Tag("erlpack")\<close> is \<open>ftag\<close>, \<open>field.Name()\<close> is \<open>fname\<close>, \<open>s.FieldOk(name)\<close>
  finds the field of that name, and \<open>field.Set(v)\<close> stores \<open>v\<close> in that field of the
  struct value and reports no error.
\<close>

definition FieldOk :: "field list \<Rightarrow> byte list \<Rightarrow> field option" where
  "FieldOk fs name = find (\<lambda>f. fname f = name) fs"

fun fieldSet :: "byte list \<Rightarrow> gval \<Rightarrow> (byte list \<times> gval) list
                 \<Rightarrow> (byte list \<times> gval) list" where
  "fieldSet name v [] = []"
| "fieldSet name v ((n, w) # i) =
     (if n = name then (n, v) # i else (n, w) # fieldSet name v i)"

text \<open>The loop that fills \<open>tag2field\<close>.\<close>

fun tag2fieldLoop :: "field list \<Rightarrow> (byte list \<rightharpoonup> byte list) \<Rightarrow> (byte list \<rightharpoonup> byte list)" where
  "tag2fieldLoop [] tag2field = tag2field"
| "tag2fieldLoop (field # fs) tag2field =
     (let t = ftag field in
      if t \<noteq> [45] then
        (if t = [] then tag2fieldLoop fs (tag2field(fname field \<mapsto> fname field))
         else tag2fieldLoop fs (tag2field(t \<mapsto> fname field)))
      else tag2fieldLoop fs tag2field)"

text \<open>
  The checks on the method \<open>UncastedErlpack\<close> and its call. \<open>None\<close>: the struct has no
  such method. The type assertion to \<open>func(*UncastedResult) error\<close> panics for a result
  type that implements \<open>error\<close> without being it. A call that returns nil makes
  \<open>handleItemCasting\<close> return nil without any store into the destination.
\<close>

definition callHook :: "hook \<Rightarrow> item \<Rightarrow> gval \<Rightarrow> (error + gval) option" where
  "callHook h Item old =
     (case h of
        NoHook \<Rightarrow> None
      | Hook nin in0 nout outk f \<Rightarrow>
          Some
           (if nin \<noteq> 1 then Inl (Err ''only *UncastedResult is expected as an argument'')
            else if \<not> in0 then Inl (Err ''only *UncastedResult is expected as a result'')
            else if nout \<noteq> 1 then Inl (Err ''only error is expected as a result'')
            else
              (case outk of
                 OutOther \<Rightarrow> Inl (Err ''result is not error'')
               | OutImplementsError \<Rightarrow> Inl (Panic ''interface conversion'')
               | OutError \<Rightarrow> (case f Item of Some e \<Rightarrow> Inl e | None \<Rightarrow> Inr old))))"

text \<open>
  \<open>reflect.Value.SetMapIndex\<close> on the map being built: keys are compared with Go's
  \<open>==\<close>, and a key that is present is replaced by the new, equal key together with its
  value. Non-nil pointers made by different allocations are different keys.
\<close>

fun gkey_eq :: "gval \<Rightarrow> gval \<Rightarrow> bool" where
  "gkey_eq (VFloat64 a) (VFloat64 b) = f64_eq a b"
| "gkey_eq (VPtr a) (VPtr b) = False"
| "gkey_eq (VIface a) (VIface b) = key_eq a b"
| "gkey_eq (VUncasted a) (VUncasted b) = key_eq a b"
| "gkey_eq a b = (a = b)"

fun SetMapIndex :: "(gval \<times> gval) list \<Rightarrow> gval \<Rightarrow> gval \<Rightarrow> (gval \<times> gval) list" where
  "SetMapIndex [] k v = [(k, v)]"
| "SetMapIndex ((k', v') # m) k v =
     (if gkey_eq k' k then (k, v) # m else (k', v') # SetMapIndex m k v)"

text \<open>
  \<open>handleItemCasting\<close>. Its result is the new content of the slot behind
  \<open>setter.ptr\<close>; on an error the slot is unchanged. The three \<open>range\<close> loops are
  \<open>castElems\<close> (over a list, giving the elements of the new slice), \<open>castStructLoop\<close>
  (over a map, into the new struct \<open>i\<close>) and \<open>castMapLoop\<close> (over a map, into the new
  map \<open>m\<close>).

  Go's \<open>range\<close> over a map visits the entries in an order that is not specified and
  changes from run to run. The two loops over a map walk the list they are given, so
  the list of an \<open>IMap\<close> stands for the map in the order of that visit, and a run of
  the program on a map is the model on some arrangement of its entries. The order
  shows only in which of several errors is reported and, in \<open>castMapLoop\<close>, in which
  entry stays when two keys become equal by the cast. Statements about these loops are
  therefore made for every list.
\<close>

function (sequential) handleItemCasting :: "item \<Rightarrow> pointerSetter \<Rightarrow> error + gval"
  and castElems :: "item list \<Rightarrow> gotype \<Rightarrow> error + gval list"
  and castStructLoop :: "(item \<times> item) list \<Rightarrow> (byte list \<rightharpoonup> byte list) \<Rightarrow> field list
                           \<Rightarrow> (byte list \<times> gval) list \<Rightarrow> error + (byte list \<times> gval) list"
  and castMapLoop :: "(item \<times> item) list \<Rightarrow> gotype \<Rightarrow> gotype \<Rightarrow> (gval \<times> gval) list
                        \<Rightarrow> error + (gval \<times> gval) list"
where
  "handleItemCasting Item setter =
     (case getBasePtr setter of
        Inl e \<Rightarrow> Inl e
      | Inr Ptr \<Rightarrow>
          if isInterface Ptr then set_ptr setter (Some (VIface Item))
          else if isUncastedResult Ptr then set_ptr setter (Some (VUncasted Item))
          else
            (case Item of
               IAtom x \<Rightarrow> castAtom x Ptr setter
             | IInt64 x \<Rightarrow> castInt64 x Ptr setter
             | IInt32 x \<Rightarrow> castInt32 x Ptr setter
             | IFloat64 x \<Rightarrow> castFloat64 x Ptr setter
             | IUint8 x \<Rightarrow> castUint8 x Ptr setter
             | IString x \<Rightarrow> castString x Ptr setter
             | IBytes x \<Rightarrow> castBytes x Ptr setter
             | IBool x \<Rightarrow> castBool x Ptr setter
             | INil \<Rightarrow> castNil Ptr setter
             | ISlice x \<Rightarrow>
                 if isInterfaceSlice Ptr then set_ptr setter (Some (VSlice (map VIface x)))
                 else
                   (case sliceElemType Ptr of
                      None \<Rightarrow> Inl (Panic ''reflect.MakeSlice of non-slice type'')
                    | Some t \<Rightarrow>
                        (case castElems x t of
                           Inl err \<Rightarrow> Inl err
                         | Inr r \<Rightarrow> set_ptr setter (Some (VSlice r))))
             | IMap x \<Rightarrow>
                 if isInterfaceMap Ptr then
                   set_ptr setter (Some (VMap (map (\<lambda>(k, v). (VIface k, VIface v)) x)))
                 else
                   (case structType Ptr of
                      Some (h, fs) \<Rightarrow>
                        (case callHook h Item (ptr_elem setter) of
                           Some res \<Rightarrow> res
                         | None \<Rightarrow>
                             (case castStructLoop x (tag2fieldLoop fs Map.empty) fs
                                     (zero_fields fs) of
                                Inl err \<Rightarrow> Inl err
                              | Inr i \<Rightarrow> set_ptr setter (Some (VStruct i))))
                    | None \<Rightarrow>
                        (case mapType Ptr of
                           Some (keyType, valueType) \<Rightarrow>
                             (case castMapLoop x keyType valueType [] of
                                Inl err \<Rightarrow> Inl err
                              | Inr m \<Rightarrow> set_ptr setter (Some (VMap m)))
                         | None \<Rightarrow> Inl unable))))"
| "castElems [] t = Inr []"
| "castElems (v # vs) t =
     (case handleItemCasting v (newSetter t) of
        Inl err \<Rightarrow> Inl err
      | Inr y \<Rightarrow>
          (case castElems vs t of
             Inl err \<Rightarrow> Inl err
           | Inr ys \<Rightarrow> Inr (y # ys)))"
| "castStructLoop [] tag2field fs i = Inr i"
| "castStructLoop ((k, v) # x) tag2field fs i =
     (case stringKey k of
        Some str \<Rightarrow>
          (case tag2field str of
             None \<Rightarrow> castStructLoop x tag2field fs i
           | Some fieldName \<Rightarrow>
               (case FieldOk fs fieldName of
                  None \<Rightarrow> Inl (Err ''failed to get field'')
                | Some field \<Rightarrow>
                    (case handleItemCasting v (newSetter (ftype field)) of
                       Inl err \<Rightarrow> Inl err
                     | Inr y \<Rightarrow> castStructLoop x tag2field fs (fieldSet fieldName y i))))
      | None \<Rightarrow> Inl (Err ''key must be string''))"
| "castMapLoop [] keyType valueType m = Inr m"
| "castMapLoop ((k, v) # x) keyType valueType m =
     (case handleItemCasting k (newSetter keyType) of
        Inl err \<Rightarrow> Inl err
      | Inr reflectKey \<Rightarrow>
          (case handleItemCasting v (newSetter valueType) of
             Inl err \<Rightarrow> Inl err
           | Inr reflectValue \<Rightarrow>
               castMapLoop x keyType valueType (SetMapIndex m reflectKey reflectValue)))"

  by pat_completeness auto
termination
  by (relation "measure (\<lambda>a. case a of
      Inl (Inl (Item, setter)) \<Rightarrow> size Item
    | Inl (Inr (xs, t)) \<Rightarrow> size_list size xs
    | Inr (Inl (x, tag2field, fs, i)) \<Rightarrow> size_list (size_prod size size) x
    | Inr (Inr (x, keyType, valueType, m)) \<Rightarrow> size_list (size_prod size size) x)")
    auto

declare handleItemCasting.simps [simp del]

section \<open>Entry points\<close>

text \<open>
  \<open>processRawData\<close>: the captured bytes are stored through the setter, as a
  \<open>json.RawMessage\<close> or as a \<open>RawData\<close>. It returns the new content of the destination
  slot and the reader after the captured term.
\<close>

definition processRawData ::
  "byte \<Rightarrow> pointerSetter \<Rightarrow> byte list \<Rightarrow> bool \<Rightarrow> error + gval \<times> byte list" where
  "processRawData DataType setter r jsonType =
     (case rawItem DataType r of
        Inl err \<Rightarrow> Inl err
      | Inr (bytes, r') \<Rightarrow>
          (case (if jsonType then set_ptr setter (Some (bytes_val bytes))
                 else set_ptr setter (Some (bytes_val bytes))) of
             Inl err \<Rightarrow> Inl err
           | Inr v \<Rightarrow> Inr (v, r')))"

text \<open>
  \<open>processItem\<close>: it returns the new content of the destination slot and the reader
  after the term.
\<close>

definition processItem :: "pointerSetter \<Rightarrow> byte list \<Rightarrow> error + gval \<times> byte list" where
  "processItem setter r =
     (case ReadByte r of
        None \<Rightarrow> Inl (Err ''not long enough to include data type'')
      | Some (DataType, r1) \<Rightarrow>
          (case getBasePtr setter of
             Inl e \<Rightarrow> Inl e
           | Inr Ptr \<Rightarrow>
               (case Ptr of
                  TRawMessage \<Rightarrow> processRawData DataType setter r1 True
                | TRawData \<Rightarrow> processRawData DataType setter r1 False
                | _ \<Rightarrow>
                    (case decodeItem DataType r1 of
                       Inl err \<Rightarrow> Inl err
                     | Inr (Item, r2) \<Rightarrow>
                         (case handleItemCasting Item setter of
                            Inl err \<Rightarrow> Inl err
                          | Inr v \<Rightarrow> Inr (v, r2))))))"

fun isPtr :: "gotype \<Rightarrow> bool" where
  "isPtr (TPtr t) = True"
| "isPtr t = False"

text \<open>
  \<open>Unpack\<close>. The argument \<open>Ptr\<close> is given by its type and, when that is a pointer type,
  the content of the variable it points to (a nil pointer is outside the model). The
  result is the new content of that variable; on an error it is unchanged.
\<close>

definition Unpack :: "byte list \<Rightarrow> pointerSetter \<Rightarrow> error + gval" where
  "Unpack Data v =
     (if \<not> isPtr (ptr_type v) then Inl (Err ''invalid pointer'')
      else if 2 > length Data then Inl (Err ''invalid erlpack bytes'')
      else
        (case ReadByte Data of
           None \<Rightarrow> Inl (Err ''invalid erlpack bytes'')
         | Some (Version, r) \<Rightarrow>
             if Version \<noteq> 131 then Inl (Err ''invalid erlpack bytes'')
             else
               (case processItem v r of
                  Inl err \<Rightarrow> Inl err
                | Inr (res, r') \<Rightarrow> Inr res)))"

text \<open>The methods \<open>Cast\<close> of \<open>RawData\<close> and of \<open>*UncastedResult\<close>.\<close>

definition RawData_Cast :: "byte list \<Rightarrow> pointerSetter \<Rightarrow> error + gval" where
  "RawData_Cast r v =
     (if \<not> isPtr (ptr_type v) then Inl (Err ''invalid pointer'')
      else (case processItem v r of Inl err \<Rightarrow> Inl err | Inr (res, r') \<Rightarrow> Inr res))"

definition UncastedResult_Cast :: "item \<Rightarrow> pointerSetter \<Rightarrow> error + gval" where
  "UncastedResult_Cast item v =
     (if \<not> isPtr (ptr_type v) then Inl (Err ''invalid pointer'')
      else handleItemCasting item v)"

text \<open>The destination \<open>&x\<close> for a variable \<open>x\<close> of type \<open>T\<close> that holds \<open>old\<close>.\<close>

definition dest :: "gotype \<Rightarrow> gval \<Rightarrow> pointerSetter" where
  "dest T old = \<lparr>ptr_type = TPtr T, ptr_elem = old\<rparr>"

section \<open>Destinations with layers of indirection\<close>

text \<open>
  \<open>ptrTo k T\<close> is the type \<open>T\<close> behind \<open>k\<close> pointers and \<open>ptrVal k v\<close> the value \<open>v\<close> behind
  \<open>k\<close> non-nil pointers, so \<open>dest (ptrTo k T) old\<close> is the destination \<open>&x\<close> for a
  variable \<open>x\<close> of type \<open>*...*T\<close>. \<open>numeric\<close> reads the number an integer value stands for.
\<close>

fun ptrTo :: "nat \<Rightarrow> gotype \<Rightarrow> gotype" where
  "ptrTo 0 T = T"
| "ptrTo (Suc k) T = TPtr (ptrTo k T)"

fun ptrVal :: "nat \<Rightarrow> gval \<Rightarrow> gval" where
  "ptrVal 0 v = v"
| "ptrVal (Suc k) v = VPtr (ptrVal k v)"

definition numeric :: "gval \<Rightarrow> int option" where
  "numeric v =
     (case v of
        VInt w \<Rightarrow> Some (sint w)
      | VUint w \<Rightarrow> Some (uint w)
      | VUint8 w \<Rightarrow> Some (uint w)
      | VInt32 w \<Rightarrow> Some (sint w)
      | VInt64 w \<Rightarrow> Some (sint w)
      | _ \<Rightarrow> None)"

lemma basePtrLoop_nonptr: "\<not> isPtr T \<Longrightarrow> basePtrLoop (TPtr T) = Inr T"
  by (cases T) simp_all

lemma basePtrLoop_ptrTo: "\<not> isPtr T \<Longrightarrow> basePtrLoop (TPtr (ptrTo k T)) = Inr T"
proof (induction k)
  case 0
  then show ?case using basePtrLoop_nonptr[of T] by (simp del: basePtrLoop.simps)
next
  case (Suc k)
  have "basePtrLoop (TPtr (ptrTo (Suc k) T)) = basePtrLoop (TPtr (ptrTo k T))"
    by simp
  with Suc show ?case by (simp del: basePtrLoop.simps)
qed

lemma slot_update_ptrVal: "slot_update d v (ptrVal d c) = ptrVal d v"
  by (induction d) simp_all

lemma ptrVal_VPtr: "ptrVal d (VPtr c) = ptrVal (Suc d) c"
  by (induction d) simp_all

lemma setLoop_nonptr: "\<not> isPtr T \<Longrightarrow> setLoop T d vb root = (d, vb, root)"
  by (cases T) simp_all

lemma setLoop_step:
  "setLoop (TPtr t) d vb (ptrVal d c) = setLoop t (Suc d) (Some d) (ptrVal (Suc d) (zero t))"
proof -
  have "slot_update d (VPtr (zero t)) (ptrVal d c) = ptrVal (Suc d) (zero t)"
    by (simp only: slot_update_ptrVal ptrVal_VPtr)
  then show ?thesis by (simp only: setLoop.simps)
qed

lemma setLoop_ptrTo:
  "\<not> isPtr T \<Longrightarrow>
   setLoop (ptrTo (Suc k) T) d vb (ptrVal d c)
     = (d + Suc k, Some (d + k), ptrVal (d + Suc k) (zero T))"
proof (induction k arbitrary: d vb c)
  case 0
  have "setLoop (ptrTo (Suc 0) T) d vb (ptrVal d c)
      = setLoop T (Suc d) (Some d) (ptrVal (Suc d) (zero T))"
    using setLoop_step[of T d vb c] by simp
  with 0 show ?case by (simp add: setLoop_nonptr)
next
  case (Suc k)
  have "setLoop (ptrTo (Suc (Suc k)) T) d vb (ptrVal d c)
      = setLoop (ptrTo (Suc k) T) (Suc d) (Some d) (ptrVal (Suc d) (zero (ptrTo (Suc k) T)))"
    using setLoop_step[of "ptrTo (Suc k) T" d vb c] by (simp only: ptrTo.simps)
  also have "\<dots> = (Suc d + Suc k, Some (Suc d + k), ptrVal (Suc d + Suc k) (zero T))"
    by (rule Suc.IH[OF Suc.prems])
  finally show ?case by simp
qed

lemma setBody_some: "\<not> isPtr T \<Longrightarrow> setBody (TPtr (ptrTo k T)) old (Some v) = Inr (ptrVal k v)"
proof (cases k)
  case 0
  assume "\<not> isPtr T"
  with 0 show ?thesis by (simp add: setBody_def setLoop_nonptr)
next
  case (Suc j)
  assume np: "\<not> isPtr T"
  have "setLoop (ptrTo (Suc j) T) 0 None old = (Suc j, Some j, ptrVal (Suc j) (zero T))"
    using setLoop_ptrTo[OF np, of j 0 None old] by simp
  moreover have "slot_update (Suc j) v (ptrVal (Suc j) (zero T)) = ptrVal (Suc j) v"
    by (rule slot_update_ptrVal)
  ultimately show ?thesis using Suc by (simp add: setBody_def del: ptrTo.simps ptrVal.simps slot_update.simps)
qed

lemma slot_update_inner: "slot_update d v (ptrVal (Suc d) c) = ptrVal d v"
  using slot_update_ptrVal[of d v "VPtr c"] by (simp only: ptrVal_VPtr)

lemma setBody_none:
  "\<not> isPtr T \<Longrightarrow>
   setBody (TPtr (ptrTo k T)) old None
     = (case k of 0 \<Rightarrow> Inl cannot_nil | Suc j \<Rightarrow> Inr (ptrVal j VNil))"
proof (cases k)
  case 0
  assume "\<not> isPtr T"
  with 0 show ?thesis by (simp add: setBody_def setLoop_nonptr)
next
  case (Suc j)
  assume np: "\<not> isPtr T"
  have "setLoop (ptrTo (Suc j) T) 0 None old = (Suc j, Some j, ptrVal (Suc j) (zero T))"
    using setLoop_ptrTo[OF np, of j 0 None old] by simp
  moreover have "slot_update j VNil (ptrVal (Suc j) (zero T)) = ptrVal j VNil"
    by (rule slot_update_inner)
  ultimately show ?thesis using Suc by (simp add: setBody_def del: ptrTo.simps ptrVal.simps slot_update.simps)
qed

lemma getBasePtr_dest: "\<not> isPtr T \<Longrightarrow> getBasePtr (dest (ptrTo k T) old) = Inr T"
  by (simp add: getBasePtr_def dest_def basePtrLoop_ptrTo del: basePtrLoop.simps)

lemma set_ptr_dest_some:
  "\<not> isPtr T \<Longrightarrow> set_ptr (dest (ptrTo k T) old) (Some v) = Inr (ptrVal k v)"
  by (simp add: set_ptr_def dest_def setBody_some)

lemma set_ptr_dest_none:
  "\<not> isPtr T \<Longrightarrow>
   set_ptr (dest (ptrTo k T) old) None
     = (case k of 0 \<Rightarrow> Inl cannot_nil | Suc j \<Rightarrow> Inr (ptrVal j VNil))"
  by (simp add: set_ptr_def dest_def setBody_none)

lemma sint_ucast_8_64: "sint (ucast (x :: 8 word) :: 64 word) = uint x"
proof -
  have "uint x < 2 ^ 8" using uint_bounded[of x] by simp
  then have "uint x < 2 ^ 63" by simp
  moreover have "- (2 ^ 63) \<le> (0 :: int)" by simp
  then have "- (2 ^ 63) \<le> uint x" using uint_nonnegative[of x] by (rule order_trans)
  ultimately show ?thesis by (simp add: signed_ucast_eq signed_take_bit_int_eq_self)
qed

lemma sint_scast_32_64: "sint (scast (y :: 32 word) :: 64 word) = sint y"
  by (rule sint_up_scast) (simp add: is_up)

lemma handleItemCasting_uint8:
  "handleItemCasting (IUint8 x) (dest (ptrTo k T) old)
     = (case getBasePtr (dest (ptrTo k T) old) of
          Inl e \<Rightarrow> Inl e
        | Inr Ptr \<Rightarrow>
            if isInterface Ptr then set_ptr (dest (ptrTo k T) old) (Some (VIface (IUint8 x)))
            else if isUncastedResult Ptr then
              set_ptr (dest (ptrTo k T) old) (Some (VUncasted (IUint8 x)))
            else castUint8 x Ptr (dest (ptrTo k T) old))"
  by (simp add: handleItemCasting.simps split: sum.splits)

lemma handleItemCasting_int32:
  "handleItemCasting (IInt32 y) (dest (ptrTo k T) old)
     = (case getBasePtr (dest (ptrTo k T) old) of
          Inl e \<Rightarrow> Inl e
        | Inr Ptr \<Rightarrow>
            if isInterface Ptr then set_ptr (dest (ptrTo k T) old) (Some (VIface (IInt32 y)))
            else if isUncastedResult Ptr then
              set_ptr (dest (ptrTo k T) old) (Some (VUncasted (IInt32 y)))
            else castInt32 y Ptr (dest (ptrTo k T) old))"
  by (simp add: handleItemCasting.simps split: sum.splits)

lemma handleItemCasting_nil:
  "handleItemCasting INil (dest (ptrTo k T) old)
     = (case getBasePtr (dest (ptrTo k T) old) of
          Inl e \<Rightarrow> Inl e
        | Inr Ptr \<Rightarrow>
            if isInterface Ptr then set_ptr (dest (ptrTo k T) old) (Some (VIface INil))
            else if isUncastedResult Ptr then
              set_ptr (dest (ptrTo k T) old) (Some (VUncasted INil))
            else castNil Ptr (dest (ptrTo k T) old))"
  by (simp add: handleItemCasting.simps split: sum.splits)

section \<open>The nested calls of the decoder\<close>

text \<open>
  The nested calls of \<open>processItem\<close> and \<open>processRawData\<close> in the source go through a
  setter on a local variable; they are the functions \<open>processAny\<close> and \<open>rawItem\<close> of this
  theory.
\<close>

lemma processItem_interface:
  "processItem (dest TInterface old) r
     = (case processAny r of Inl err \<Rightarrow> Inl err | Inr (x, r') \<Rightarrow> Inr (VIface x, r'))"
proof -
  have b: "getBasePtr (dest TInterface old) = Inr TInterface"
    using getBasePtr_dest[of TInterface 0 old] by simp
  have s: "set_ptr (dest TInterface old) (Some v) = Inr v" for v
    using set_ptr_dest_some[of TInterface 0 old v] by simp
  have h: "handleItemCasting Item (dest TInterface old) = Inr (VIface Item)" for Item
    by (simp add: handleItemCasting.simps b s)
  show ?thesis
    by (simp add: processItem_def processAny.simps b h split: option.splits sum.splits)
qed

lemma processRawData_RawData:
  "processRawData DataType (dest TRawData old) r False
     = (case rawItem DataType r of
          Inl err \<Rightarrow> Inl err
        | Inr (bytes, r') \<Rightarrow> Inr (bytes_val bytes, r'))"
proof -
  have s: "set_ptr (dest TRawData old) (Some v) = Inr v" for v
    using set_ptr_dest_some[of TRawData 0 old v] by simp
  show ?thesis by (simp add: processRawData_def s split: sum.splits)
qed

section \<open>The two versions of pointerSetter\<close>

text \<open>
  Every \<open>pointerSetter\<close> of the package is made as \<open>&pointerSetter{ptr: ...}\<close>, so the
  cached version starts with a nil \<open>baseCache\<close>. \<open>callsC n s\<close> is the setter after \<open>n\<close>
  calls of \<open>getBasePtr\<close>.
\<close>

definition newSetterC :: "gotype \<Rightarrow> gval \<Rightarrow> pointerSetterC" where
  "newSetterC T old = \<lparr>ptr_type = T, ptr_elem = old, baseCache = None\<rparr>"

definition uncached :: "pointerSetterC \<Rightarrow> pointerSetter" where
  "uncached s = \<lparr>ptr_type = ptr_type s, ptr_elem = ptr_elem s\<rparr>"

definition cache_ok :: "pointerSetterC \<Rightarrow> bool" where
  "cache_ok s =
     (case baseCache s of None \<Rightarrow> True | Some c \<Rightarrow> basePtrLoop (ptr_type s) = Inr c)"

fun callsC :: "nat \<Rightarrow> pointerSetterC \<Rightarrow> pointerSetterC" where
  "callsC 0 s = s"
| "callsC (Suc n) s = callsC n (snd (getBasePtrC s))"

lemma getBasePtrC_uncached: "uncached (snd (getBasePtrC s)) = uncached s"
  by (simp add: getBasePtrC_def uncached_def split: option.splits sum.splits)

lemma getBasePtrC_cache_ok: "cache_ok s \<Longrightarrow> cache_ok (snd (getBasePtrC s))"
  by (simp add: getBasePtrC_def cache_ok_def split: option.splits sum.splits)

lemma getBasePtrC_result: "cache_ok s \<Longrightarrow> fst (getBasePtrC s) = getBasePtr (uncached s)"
  by (simp add: getBasePtrC_def cache_ok_def getBasePtr_def uncached_def
      split: option.splits sum.splits)

lemma callsC_keeps:
  "cache_ok s \<Longrightarrow> cache_ok (callsC n s) \<and> uncached (callsC n s) = uncached s"
  by (induction n arbitrary: s) (simp_all add: getBasePtrC_cache_ok getBasePtrC_uncached)

text \<open>
  Claim C9. The cached and the cache-free \<open>pointerSetter\<close> cannot be told apart: on a
  setter for the same pointer, after any number \<open>n\<close> of earlier \<open>getBasePtr\<close> calls, the
  cached \<open>getBasePtr\<close> returns what the cache-free one returns (the same base pointer,
  or the same panic when the value is no pointer), and the cached \<open>set\<close> returns the
  same error or makes the same assignment as the cache-free one and leaves the setter
  as it is.
\<close>

theorem pointerSetter_versions_equivalent:
  "fst (getBasePtrC (callsC n (newSetterC T old)))
     = getBasePtr \<lparr>ptr_type = T, ptr_elem = old\<rparr>
   \<and> set_ptrC (callsC n (newSetterC T old)) p
       = (set_ptr \<lparr>ptr_type = T, ptr_elem = old\<rparr> p, callsC n (newSetterC T old))"
proof -
  let ?s = "callsC n (newSetterC T old)"
  have ok: "cache_ok (newSetterC T old)"
    by (simp add: cache_ok_def newSetterC_def)
  have u: "uncached (newSetterC T old) = \<lparr>ptr_type = T, ptr_elem = old\<rparr>"
    by (simp add: uncached_def newSetterC_def)
  from callsC_keeps[OF ok, of n] have k: "cache_ok ?s"
    and e: "uncached ?s = \<lparr>ptr_type = T, ptr_elem = old\<rparr>"
    by (simp_all add: u)
  from getBasePtrC_result[OF k] e
  have 1: "fst (getBasePtrC ?s) = getBasePtr \<lparr>ptr_type = T, ptr_elem = old\<rparr>"
    by simp
  from e have "ptr_type ?s = T" "ptr_elem ?s = old"
    by (simp_all add: uncached_def)
  then have 2: "set_ptrC ?s p = (set_ptr \<lparr>ptr_type = T, ptr_elem = old\<rparr> p, ?s)"
    by (simp add: set_ptrC_def set_ptr_def)
  from 1 2 show ?thesis by simp
qed

section \<open>The decoder on concrete inputs\<close>

text \<open>
  The multiplier of the accumulation loop of case \<open>'n'\<close> is 0 before the loop and stays
  0, so the sum never changes: every 64-bit integer decodes to 0.
\<close>

lemma int64Loop_zero_multiplier:
  "int64Loop i n u 0 r = Inr (w, r') \<Longrightarrow> w = u"
proof (induction i n u "0 :: 64 word" r rule: int64Loop.induct)
  case (1 i n u r)
  show ?case
  proof (cases "i < n")
    case True
    with "1.prems" obtain c r1 where rb: "ReadByte r = Some (c, r1)"
      and rec: "int64Loop (i + 1) n u 0 r1 = Inr (w, r')"
      by (subst (asm) int64Loop.simps) (auto split: option.splits)
    from "1.hyps"[OF True rb refl] rec show ?thesis by simp
  next
    case False
    with "1.prems" show ?thesis by (subst (asm) int64Loop.simps) simp
  qed
qed

lemma decodeInt64_always_zero: "decodeInt64 r = Inr (x, r') \<Longrightarrow> x = IInt64 0"
  by (auto simp: decodeInt64_def Let_def split: option.splits sum.splits if_splits
      dest!: int64Loop_zero_multiplier)

text \<open>
  Claim C1. The input is the version byte, tag \<open>'n'\<close>, encoded length 1, sign byte 0 and
  the magnitude byte 5: the little-endian weighted sum is 5. The decoder stores 0 in the
  \<open>int64\<close> destination, because the multiplier of the accumulation loop starts at 0 and
  shifting keeps it 0.
\<close>

theorem int64_decodes_to_zero:
  "Unpack [131, 110, 1, 0, 5] (dest TInt64 (VInt64 42)) = Inr (VInt64 0)"
  by code_simp

text \<open>
  Other fields cut short by the end of the input: an \<open>int32\<close> with one of its four
  bytes, a binary with one of its three bytes and a map with one byte of its length
  decode, the missing bytes read as zero. A binary whose length is cut short is refused
  only because the read of its content meets the end of the input.
\<close>

lemma truncated_fields_decode:
  "Unpack [131, 98, 1] (dest TInt32 (VInt32 0)) = Inr (VInt32 16777216)"
  "Unpack [131, 109, 0, 0] (dest TString (VString [120]))
     = Inl (Err ''string length is longer than remainder of array'')"
  "Unpack [131, 109, 0, 0, 0, 3, 65] (dest TString (VString [])) = Inr (VString [65, 0, 0])"
  "Unpack [131, 116, 0] (dest (TMap TInterface TInterface) VNil) = Inr (VMap [])"
  by code_simp+

text \<open>
  Claim C2. The input ends two bytes into the 4-byte length of a list (tag \<open>'l'\<close>).
  \<open>Unpack\<close> reports no error and stores an empty list: the short \<open>Read\<close> leaves the missing
  bytes zero.
\<close>

theorem truncated_list_length_decodes:
  "Unpack [131, 108, 0, 0] (dest (TSlice TInterface) VNil) = Inr (VSlice [])"
  by code_simp

text \<open>
  Claim C3. On the bytes \<open>'n', 1, 0, 5\<close> raw mode captures and consumes \<open>'n', 1, 0\<close> and
  leaves the magnitude byte 5 in the reader, where materialize mode consumes all four
  bytes: raw mode reads as many bytes after the length as the length says, and the
  sign byte is one of them.
\<close>

theorem raw_int64_consumes_less:
  "processItem (dest TRawData VNil) [110, 1, 0, 5] = Inr (bytes_val [110, 1, 0], [5])
   \<and> processItem (dest TInt64 (VInt64 42)) [110, 1, 0, 5] = Inr (VInt64 0, [])"
  by code_simp

text \<open>
  The three reserved atoms into an \<open>Atom\<close> destination, \<open>true\<close> and \<open>false\<close> into a
  \<open>bool\<close> destination, and the atom \<open>ok\<close>. The atom with the empty name panics.
\<close>

lemma reserved_atoms_decode:
  "Unpack [131, 115, 4, 116, 114, 117, 101] (dest TAtom (VAtom [])) = Inr (VAtom [116, 114, 117, 101])"
  "Unpack [131, 115, 5, 102, 97, 108, 115, 101] (dest TAtom (VAtom []))
     = Inr (VAtom [102, 97, 108, 115, 101])"
  "Unpack [131, 115, 3, 110, 105, 108] (dest TAtom (VAtom [])) = Inr (VAtom [110, 105, 108])"
  "Unpack [131, 115, 4, 116, 114, 117, 101] (dest TBool (VBool False)) = Inr (VBool True)"
  "Unpack [131, 115, 5, 102, 97, 108, 115, 101] (dest TBool (VBool True)) = Inr (VBool False)"
  "Unpack [131, 115, 2, 111, 107] (dest TAtom (VAtom [])) = Inr (VAtom [111, 107])"
  by code_simp+

lemma empty_atom_panics:
  "Unpack [131, 115, 0] (dest TAtom (VAtom []))
     = Inl (Panic ''runtime error: index out of range [0] with length 0'')"
  by code_simp

text \<open>Every atom name that starts with \<open>true\<close> becomes the boolean.\<close>

lemma processAtom_true_prefix: "processAtom (116 # 114 # 117 # 101 # rest) = Inr (IBool True)"
  by (simp add: processAtom_def matchRest_def upt_rec)

text \<open>
  Claim C5. The atom \<open>truex\<close> (tag \<open>'s'\<close>, length 5) decoded into an \<open>Atom\<close> destination
  gives the text \<open>true\<close>: \<open>processAtom\<close> compares only the first bytes of the name with
  the reserved spelling, so the atom becomes the boolean.
\<close>

theorem atom_with_reserved_prefix:
  "Unpack [131, 115, 5, 116, 114, 117, 101, 120] (dest TAtom (VAtom []))
     = Inr (VAtom [116, 114, 117, 101])"
  by code_simp

text \<open>
  The zero-length binary with one more byte after it decodes to the empty string and
  the empty byte sequence, and raw mode captures it at the end of the input.
\<close>

lemma empty_binary_before_more_input:
  "Unpack [131, 109, 0, 0, 0, 0, 99] (dest TString (VString [120])) = Inr (VString [])"
  "Unpack [131, 109, 0, 0, 0, 0, 99] (dest (TSlice TUint8) VNil) = Inr (VSlice [])"
  "Unpack [131, 109, 0, 0, 0, 0] (dest TRawData VNil) = Inr (bytes_val [109, 0, 0, 0, 0])"
  by code_simp+

text \<open>
  Claim C8. A binary (tag \<open>'m'\<close>) of declared length 0 that ends the input is refused,
  for a string destination and for a \<open>[]byte\<close> destination: the \<open>Read\<close> of its zero
  bytes meets the end of the input and reports \<open>io.EOF\<close>.
\<close>

theorem empty_binary_at_end_fails:
  "Unpack [131, 109, 0, 0, 0, 0] (dest TString (VString [120]))
     = Inl (Err ''string length is longer than remainder of array'')
   \<and> Unpack [131, 109, 0, 0, 0, 0] (dest (TSlice TUint8) VNil)
     = Inl (Err ''string length is longer than remainder of array'')"
  by code_simp

text \<open>
  In raw mode the list of the 64-bit integer 98 and the empty list is captured with the
  magnitude byte 98 taken for the tag \<open>'b'\<close>, whose four bytes are the rest of the term
  and the three bytes after it: the capture depends on the trailing bytes.
\<close>

lemma raw_capture_reads_trailing_bytes:
  "Unpack [131, 108, 0, 0, 0, 2, 110, 1, 0, 98, 106] (dest TRawData VNil)
     = Inr (bytes_val [108, 0, 0, 0, 2, 110, 1, 0, 98, 106, 0, 0, 0])"
  "Unpack ([131, 108, 0, 0, 0, 2, 110, 1, 0, 98, 106] @ [1, 2, 3]) (dest TRawData VNil)
     = Inr (bytes_val [108, 0, 0, 0, 2, 110, 1, 0, 98, 106, 1, 2, 3])"
  by code_simp+

text \<open>
  Claim C10. The complete term \<open>'m', 0, 0, 0, 0\<close> followed by the trailing byte 99
  decodes to the empty string, and the same input without the trailing byte is an
  error: the trailing byte decides the result.
\<close>

theorem trailing_byte_changes_result:
  "Unpack ([131, 109, 0, 0, 0, 0] @ [99]) (dest TString (VString [120])) = Inr (VString [])
   \<and> Unpack [131, 109, 0, 0, 0, 0] (dest TString (VString [120]))
     = Inl (Err ''string length is longer than remainder of array'')"
  by code_simp

section \<open>Casting integers\<close>

text \<open>
  Claim C4, as the claim states it, fails: the small integer 5 (tag \<open>'a'\<close>) decoded into
  an \<open>int64\<close> destination is an error, not the value 5. The type switch of the \<open>uint8\<close>
  case lists \<open>*uint\<close>, \<open>*uint8\<close> and \<open>*int\<close> and refuses every other destination.
\<close>

theorem small_int_into_int64_fails:
  "Unpack [131, 97, 5] (dest TInt64 (VInt64 0))
     = Inl (Err ''could not de-serialize into uint8'')"
  by code_simp

text \<open>
  Claim C4, amended. Behind any number \<open>k\<close> of pointers: a decoded SmallInteger cast into
  a \<open>uint8\<close>, \<open>uint\<close> or \<open>int\<close> destination succeeds and the value stored stands for the
  same number; a decoded Integer32 cast into an \<open>int32\<close> or \<open>int\<close> destination succeeds
  with the same number; either of them cast into an \<open>int64\<close>, \<open>float64\<close> or \<open>float32\<close>
  destination fails with a cast error.
\<close>

theorem integer_casts:
  "handleItemCasting (IUint8 x) (dest (ptrTo k TUint8) old) = Inr (ptrVal k (VUint8 x))
   \<and> numeric (VUint8 x) = Some (uint x)
   \<and> handleItemCasting (IUint8 x) (dest (ptrTo k TUint) old) = Inr (ptrVal k (VUint (ucast x)))
   \<and> numeric (VUint (ucast x)) = Some (uint x)
   \<and> handleItemCasting (IUint8 x) (dest (ptrTo k TInt) old) = Inr (ptrVal k (VInt (ucast x)))
   \<and> numeric (VInt (ucast x)) = Some (uint x)
   \<and> handleItemCasting (IInt32 y) (dest (ptrTo k TInt32) old) = Inr (ptrVal k (VInt32 y))
   \<and> numeric (VInt32 y) = Some (sint y)
   \<and> handleItemCasting (IInt32 y) (dest (ptrTo k TInt) old) = Inr (ptrVal k (VInt (scast y)))
   \<and> numeric (VInt (scast y)) = Some (sint y)
   \<and> handleItemCasting (IUint8 x) (dest (ptrTo k TInt64) old)
       = Inl (Err ''could not de-serialize into uint8'')
   \<and> handleItemCasting (IInt32 y) (dest (ptrTo k TInt64) old)
       = Inl (Err ''could not de-serialize into int'')
   \<and> handleItemCasting (IUint8 x) (dest (ptrTo k TFloat64) old)
       = Inl (Err ''could not de-serialize into uint8'')
   \<and> handleItemCasting (IUint8 x) (dest (ptrTo k TFloat32) old)
       = Inl (Err ''could not de-serialize into uint8'')
   \<and> handleItemCasting (IInt32 y) (dest (ptrTo k TFloat64) old)
       = Inl (Err ''could not de-serialize into int'')
   \<and> handleItemCasting (IInt32 y) (dest (ptrTo k TFloat32) old)
       = Inl (Err ''could not de-serialize into int'')"
proof -
  have u: "handleItemCasting (IUint8 x) (dest (ptrTo k TUint8) old) = Inr (ptrVal k (VUint8 x))"
    "handleItemCasting (IUint8 x) (dest (ptrTo k TUint) old) = Inr (ptrVal k (VUint (ucast x)))"
    "handleItemCasting (IUint8 x) (dest (ptrTo k TInt) old) = Inr (ptrVal k (VInt (ucast x)))"
    "handleItemCasting (IUint8 x) (dest (ptrTo k TInt64) old)
       = Inl (Err ''could not de-serialize into uint8'')"
    "handleItemCasting (IUint8 x) (dest (ptrTo k TFloat64) old)
       = Inl (Err ''could not de-serialize into uint8'')"
    "handleItemCasting (IUint8 x) (dest (ptrTo k TFloat32) old)
       = Inl (Err ''could not de-serialize into uint8'')"
    by (simp_all add: handleItemCasting_uint8 getBasePtr_dest castUint8_def set_ptr_dest_some)
  have i: "handleItemCasting (IInt32 y) (dest (ptrTo k TInt32) old) = Inr (ptrVal k (VInt32 y))"
    "handleItemCasting (IInt32 y) (dest (ptrTo k TInt) old) = Inr (ptrVal k (VInt (scast y)))"
    "handleItemCasting (IInt32 y) (dest (ptrTo k TInt64) old)
       = Inl (Err ''could not de-serialize into int'')"
    "handleItemCasting (IInt32 y) (dest (ptrTo k TFloat64) old)
       = Inl (Err ''could not de-serialize into int'')"
    "handleItemCasting (IInt32 y) (dest (ptrTo k TFloat32) old)
       = Inl (Err ''could not de-serialize into int'')"
    by (simp_all add: handleItemCasting_int32 getBasePtr_dest castInt32_def set_ptr_dest_some)
  have n: "numeric (VUint8 x) = Some (uint x)" "numeric (VUint (ucast x)) = Some (uint x)"
    "numeric (VInt (ucast x)) = Some (uint x)" "numeric (VInt32 y) = Some (sint y)"
    "numeric (VInt (scast y)) = Some (sint y)"
    by (simp_all add: numeric_def sint_ucast_8_64 sint_scast_32_64 uint_up_ucast is_up)
  from u i n show ?thesis by (simp only: simp_thms)
qed

section \<open>Casting nil\<close>

text \<open>
  Claim C7, as the claim states it, fails. Decoding the atom \<open>nil\<close> into a variable of
  type \<open>**int\<close> that holds nil makes the variable a non-nil pointer to a nil \<open>*int\<close>:
  the outermost pointer is not cleared but set to a fresh allocation, and the pointer
  cleared is the innermost one. Decoding it into a bare \<open>interface{}\<close> variable reports
  no error and stores the nil interface.
\<close>

theorem nil_into_pointer_chain_and_interface:
  "Unpack [131, 115, 3, 110, 105, 108] (dest (TPtr (TPtr TInt)) VNil) = Inr (VPtr VNil)
   \<and> Unpack [131, 115, 3, 110, 105, 108] (dest TInterface (VIface (IUint8 1)))
       = Inr (VIface INil)"
  by code_simp

text \<open>
  Claim C7, amended. Let the destination be a variable behind \<open>k\<close> pointers whose base
  type \<open>T\<close> is none of \<open>Atom\<close>, \<open>interface{}\<close> and \<open>UncastedResult\<close>. Casting nil into it
  fails with the error \<open>cannot_nil\<close> when \<open>k = 0\<close> (a bare value slot), and the variable
  keeps its content. When \<open>k = j + 1\<close>, whatever the variable held, it becomes \<open>j\<close> fresh
  non-nil pointers that end in a nil pointer: the one pointer cleared is the innermost
  one, which would point to the base value, and each layer further out is set to a new
  allocation.
\<close>

theorem nil_clears_innermost_pointer:
  assumes "\<not> isPtr T" and "\<not> isInterface T" and "\<not> isUncastedResult T" and "T \<noteq> TAtom"
  shows "handleItemCasting INil (dest (ptrTo k T) old)
     = (case k of 0 \<Rightarrow> Inl cannot_nil | Suc j \<Rightarrow> Inr (ptrVal j VNil))"
proof -
  from assms(4) have "castNil T (dest (ptrTo k T) old) = set_ptr (dest (ptrTo k T) old) None"
    by (cases T) (simp_all add: castNil_def)
  with assms(1-3) show ?thesis
    by (simp add: handleItemCasting_nil getBasePtr_dest set_ptr_dest_none)
qed

theorem nil_clears_innermost_pointer_witness:
  "\<not> isPtr TInt \<and> \<not> isInterface TInt \<and> \<not> isUncastedResult TInt \<and> TInt \<noteq> TAtom
   \<and> handleItemCasting INil (dest (ptrTo (Suc (Suc (Suc 0))) TInt) (VPtr (VPtr (VPtr (VInt 7)))))
       = Inr (VPtr (VPtr VNil))
   \<and> handleItemCasting INil (dest (ptrTo 0 TInt) (VInt 7)) = Inl cannot_nil"
  using nil_clears_innermost_pointer[of TInt "Suc (Suc (Suc 0))" "VPtr (VPtr (VPtr (VInt 7)))"]
    nil_clears_innermost_pointer[of TInt 0 "VInt 7"]
  by simp

section \<open>Casting a map into a struct\<close>

text \<open>
  The words of the claim about the cast of a map into a struct. The lookup key of a field
  is its \<open>erlpack\<close> tag, or its name when it has no tag; a field tagged \<open>-\<close> is excluded.
  \<open>fieldFor fs str\<close> is the field that the field-mapping table gives for the key \<open>str\<close>:
  the last declared field that is not excluded and whose lookup key is \<open>str\<close>
  (\<open>tag2fieldLoop_fieldFor\<close> compares it with the table the source builds).
  \<open>castInto v T\<close> is the recursively cast value: the cast of \<open>v\<close> into a fresh slot of type
  \<open>T\<close>. \<open>entryFor x fs f\<close> is the value of the map entry that stands for the field \<open>f\<close>.
\<close>

definition lookupKey :: "field \<Rightarrow> byte list" where
  "lookupKey f = (if ftag f = [] then fname f else ftag f)"

definition excluded :: "field \<Rightarrow> bool" where
  "excluded f = (ftag f = [45])"

fun fieldFor :: "field list \<Rightarrow> byte list \<Rightarrow> field option" where
  "fieldFor [] str = None"
| "fieldFor (f # fs) str =
     (case fieldFor fs str of
        Some g \<Rightarrow> Some g
      | None \<Rightarrow> if \<not> excluded f \<and> lookupKey f = str then Some f else None)"

definition castInto :: "item \<Rightarrow> gotype \<Rightarrow> error + gval" where
  "castInto v T = handleItemCasting v (newSetter T)"

definition entryFor :: "(item \<times> item) list \<Rightarrow> field list \<Rightarrow> field \<Rightarrow> item option" where
  "entryFor x fs f =
     (if fieldFor fs (lookupKey f) = Some f then map_of x (IString (lookupKey f)) else None)"

lemma tag2fieldLoop_fieldFor:
  "tag2fieldLoop fs m str = (case fieldFor fs str of Some f \<Rightarrow> Some (fname f) | None \<Rightarrow> m str)"
proof (induction fs arbitrary: m)
  case Nil
  show ?case by simp
next
  case (Cons f fs)
  show ?case
    by (auto simp: Cons.IH Let_def excluded_def lookupKey_def split: option.splits)
qed

lemma fieldFor_SomeD:
  "fieldFor fs str = Some f \<Longrightarrow> f \<in> set fs \<and> \<not> excluded f \<and> lookupKey f = str"
  by (induction fs) (auto split: option.splits if_splits)

lemma FieldOk_member:
  "distinct (map fname fs) \<Longrightarrow> f \<in> set fs \<Longrightarrow> FieldOk fs (fname f) = Some f"
  unfolding FieldOk_def by (induction fs) (auto simp: rev_image_eqI)

lemma fieldSet_fst: "map fst (fieldSet n y i) = map fst i"
  by (induction i) auto

lemma fieldSet_map_of:
  "map_of (fieldSet n y i) m = (if m = n \<and> n \<in> fst ` set i then Some y else map_of i m)"
  by (induction i) (auto simp: rev_image_eqI)

lemma zero_fields_fst: "map fst (zero_fields fs) = map fname fs"
proof (induction fs)
  case Nil
  show ?case by simp
next
  case (Cons f fs)
  then show ?case by (cases f) simp
qed

lemma zero_fields_map_of:
  "distinct (map fname fs) \<Longrightarrow> f \<in> set fs \<Longrightarrow>
   map_of (zero_fields fs) (fname f) = Some (zero (ftype f))"
proof (induction fs)
  case Nil
  then show ?case by simp
next
  case (Cons g fs)
  then show ?case by (cases g) (auto simp: rev_image_eqI)
qed

lemma stringKey_Some: "stringKey k = Some str \<longleftrightarrow> k = IString str"
  by (cases k) auto

lemma castStructLoop_keys:
  "castStructLoop x t2f fs i = Inr i' \<Longrightarrow> (k, v) \<in> set x \<Longrightarrow> stringKey k \<noteq> None"
proof (induction x arbitrary: i)
  case Nil
  then show ?case by simp
next
  case (Cons kv x)
  obtain k0 v0 where kv: "kv = (k0, v0)" by (cases kv)
  from Cons.prems(1) kv obtain i0 where s: "stringKey k0 \<noteq> None"
    and r: "castStructLoop x t2f fs i0 = Inr i'"
    by (auto split: option.splits sum.splits)
  from Cons.prems(2) kv consider "k = k0" | "(k, v) \<in> set x" by auto
  then show ?case
  proof cases
    case 1
    with s show ?thesis by simp
  next
    case 2
    from Cons.IH[OF r 2] show ?thesis .
  qed
qed

lemma castStructLoop_result:
  assumes "distinct (map fname fs)"
  shows "castStructLoop x (tag2fieldLoop fs Map.empty) fs i = Inr i' \<Longrightarrow>
     distinct (map fst x) \<Longrightarrow> map fst i = map fname fs \<Longrightarrow>
     map fst i' = map fname fs \<and>
     (\<forall>f \<in> set fs.
        case entryFor x fs f of
          None \<Rightarrow> map_of i' (fname f) = map_of i (fname f)
        | Some v \<Rightarrow> \<exists>y. castInto v (ftype f) = Inr y \<and> map_of i' (fname f) = Some y)"
proof (induction x arbitrary: i)
  case Nil
  then show ?case by (simp add: entryFor_def)
next
  case (Cons kv x)
  let ?t = "tag2fieldLoop fs Map.empty"
  obtain k0 v0 where kv: "kv = (k0, v0)" by (cases kv)
  from Cons.prems(1) kv obtain str where k0: "k0 = IString str"
    by (auto simp: stringKey_Some split: option.splits)
  from Cons.prems(2) kv k0 have notin: "IString str \<notin> fst ` set x" and dx: "distinct (map fst x)"
    by auto
  then have mo: "map_of x (IString str) = None" by (simp add: map_of_eq_None_iff)
  show ?case
  proof (cases "fieldFor fs str")
    case None
    then have t: "?t str = None" by (simp add: tag2fieldLoop_fieldFor)
    with Cons.prems(1) kv k0 have r: "castStructLoop x ?t fs i = Inr i'" by simp
    have same: "entryFor (kv # x) fs f = entryFor x fs f" for f
      using None kv k0 by (auto simp: entryFor_def)
    from Cons.IH[OF r dx Cons.prems(3)] show ?thesis by (simp add: same)
  next
    case (Some g)
    from fieldFor_SomeD[OF Some] have g: "g \<in> set fs" "\<not> excluded g" "lookupKey g = str"
      by simp_all
    from Some have t: "?t str = Some (fname g)" by (simp add: tag2fieldLoop_fieldFor)
    from FieldOk_member[OF assms g(1)] have fo: "FieldOk fs (fname g) = Some g" .
    from Cons.prems(1) kv k0 t fo obtain y where y: "castInto v0 (ftype g) = Inr y"
      and r: "castStructLoop x ?t fs (fieldSet (fname g) y i) = Inr i'"
      by (auto simp: castInto_def split: sum.splits)
    have fst': "map fst (fieldSet (fname g) y i) = map fname fs"
      by (simp add: fieldSet_fst Cons.prems(3))
    from Cons.IH[OF r dx fst'] have names: "map fst i' = map fname fs"
      and ih: "\<forall>f \<in> set fs.
        case entryFor x fs f of
          None \<Rightarrow> map_of i' (fname f) = map_of (fieldSet (fname g) y i) (fname f)
        | Some v \<Rightarrow> \<exists>y. castInto v (ftype f) = Inr y \<and> map_of i' (fname f) = Some y"
      by simp_all
    have gin: "fname g \<in> fst ` set i"
    proof -
      from g(1) have "fname g \<in> set (map fname fs)" by simp
      then have "fname g \<in> set (map fst i)" by (simp only: Cons.prems(3))
      then show ?thesis by simp
    qed
    have "case entryFor (kv # x) fs f of
          None \<Rightarrow> map_of i' (fname f) = map_of i (fname f)
        | Some v \<Rightarrow> \<exists>y. castInto v (ftype f) = Inr y \<and> map_of i' (fname f) = Some y"
      if f: "f \<in> set fs" for f
    proof (cases "f = g")
      case True
      have e1: "entryFor (kv # x) fs g = Some v0"
        using Some g(3) kv k0 by (simp add: entryFor_def)
      have e2: "entryFor x fs g = None"
        using g(3) mo by (simp add: entryFor_def)
      from ih g(1) e2 have "map_of i' (fname g) = map_of (fieldSet (fname g) y i) (fname g)"
        by force
      then have "map_of i' (fname g) = Some y" using gin by (simp add: fieldSet_map_of)
      with y e1 True show ?thesis by simp
    next
      case False
      have ne: "fname f \<noteq> fname g"
        using assms f g(1) False by (auto simp: distinct_map inj_on_def)
      have same: "entryFor (kv # x) fs f = entryFor x fs f"
      proof (cases "fieldFor fs (lookupKey f) = Some f")
        case True
        with Some False have "lookupKey f \<noteq> str" by auto
        with kv k0 show ?thesis by (simp add: entryFor_def)
      next
        case False
        then show ?thesis by (simp add: entryFor_def)
      qed
      from ih f have "case entryFor x fs f of
          None \<Rightarrow> map_of i' (fname f) = map_of (fieldSet (fname g) y i) (fname f)
        | Some v \<Rightarrow> \<exists>y. castInto v (ftype f) = Inr y \<and> map_of i' (fname f) = Some y"
        by blast
      then show ?thesis using ne by (simp add: same fieldSet_map_of split: option.splits)
    qed
    with names show ?thesis by blast
  qed
qed

lemma castStructLoop_succeeds:
  assumes "distinct (map fname fs)"
  shows "(\<And>k v. (k, v) \<in> set x \<Longrightarrow>
            \<exists>str. k = IString str \<and> (\<forall>f. fieldFor fs str = Some f \<longrightarrow> \<not> isl (castInto v (ftype f)))) \<Longrightarrow>
         \<not> isl (castStructLoop x (tag2fieldLoop fs Map.empty) fs i)"
proof (induction x arbitrary: i)
  case Nil
  show ?case by simp
next
  case (Cons kv x)
  let ?t = "tag2fieldLoop fs Map.empty"
  obtain k0 v0 where kv: "kv = (k0, v0)" by (cases kv)
  from Cons.prems[of k0 v0] kv obtain str where k0: "k0 = IString str"
    and c: "\<forall>f. fieldFor fs str = Some f \<longrightarrow> \<not> isl (castInto v0 (ftype f))"
    by auto
  have rest: "\<not> isl (castStructLoop x ?t fs j)" for j
    by (rule Cons.IH) (use Cons.prems in auto)
  show ?case
  proof (cases "fieldFor fs str")
    case None
    then have "?t str = None" by (simp add: tag2fieldLoop_fieldFor)
    with kv k0 rest show ?thesis by simp
  next
    case (Some g)
    from fieldFor_SomeD[OF Some] have g: "g \<in> set fs" by simp
    from Some have t: "?t str = Some (fname g)" by (simp add: tag2fieldLoop_fieldFor)
    from FieldOk_member[OF assms g] have fo: "FieldOk fs (fname g) = Some g" .
    from c Some obtain y where y: "castInto v0 (ftype g) = Inr y"
      by (cases "castInto v0 (ftype g)") auto
    with kv k0 t fo rest show ?thesis by (simp add: castInto_def)
  qed
qed


lemma castStructLoop_no_panic:
  assumes "distinct (map fname fs)"
  shows "(\<And>k v str f. (k, v) \<in> set x \<Longrightarrow> k = IString str \<Longrightarrow> fieldFor fs str = Some f \<Longrightarrow>
            castInto v (ftype f) \<noteq> Inl (Panic msg)) \<Longrightarrow>
         castStructLoop x (tag2fieldLoop fs Map.empty) fs i \<noteq> Inl (Panic msg)"
proof (induction x arbitrary: i)
  case Nil
  show ?case by simp
next
  case (Cons kv x)
  let ?t = "tag2fieldLoop fs Map.empty"
  obtain k0 v0 where kv: "kv = (k0, v0)" by (cases kv)
  have rest: "castStructLoop x ?t fs j \<noteq> Inl (Panic msg)" for j
    by (rule Cons.IH) (use Cons.prems in auto)
  show ?case
  proof (cases "stringKey k0")
    case None
    with kv show ?thesis by simp
  next
    case (Some str)
    then have k0: "k0 = IString str" by (simp add: stringKey_Some)
    show ?thesis
    proof (cases "fieldFor fs str")
      case None
      then have "?t str = None" by (simp add: tag2fieldLoop_fieldFor)
      with kv k0 rest show ?thesis by simp
    next
      case (Some g)
      from fieldFor_SomeD[OF Some] have g: "g \<in> set fs" by simp
      from Some have t: "?t str = Some (fname g)" by (simp add: tag2fieldLoop_fieldFor)
      from FieldOk_member[OF assms g] have fo: "FieldOk fs (fname g) = Some g" .
      from Cons.prems[of k0 v0 str g] kv k0 Some
      have np: "castInto v0 (ftype g) \<noteq> Inl (Panic msg)" by simp
      show ?thesis
      proof (cases "castInto v0 (ftype g)")
        case (Inl e)
        with np kv k0 t fo show ?thesis by (simp add: castInto_def)
      next
        case (Inr y)
        with kv k0 t fo rest show ?thesis by (simp add: castInto_def)
      qed
    qed
  qed
qed

lemma handleItemCasting_struct:
  "handleItemCasting (IMap x) (dest (ptrTo n (TStruct NoHook fs)) old)
     = (case castStructLoop x (tag2fieldLoop fs Map.empty) fs (zero_fields fs) of
          Inl e \<Rightarrow> Inl e
        | Inr i \<Rightarrow> Inr (ptrVal n (VStruct i)))"
  by (simp add: handleItemCasting.simps getBasePtr_dest callHook_def set_ptr_dest_some
      split: sum.splits)

lemma entryFor_excluded: "excluded f \<Longrightarrow> entryFor x fs f = None"
  using fieldFor_SomeD[of fs "lookupKey f" f] by (auto simp: entryFor_def)

text \<open>
  Claim C6, as the claim states it, fails. In the struct below both fields carry the tag
  \<open>k\<close>; the map has the one entry \<open>k \<mapsto> 5\<close> (the key a binary, hence a string). Only
  the second field is assigned: the first keeps the zero value although its tag equals a
  key that is present. \<open>tag2field\<close> is a map from lookup key to field name, and a later
  field with the same lookup key replaces the earlier one.
\<close>

theorem duplicate_tag_assigns_last_field_only:
  "Unpack [131, 116, 0, 0, 0, 1, 109, 0, 0, 0, 1, 107, 97, 5]
     (dest (TStruct NoHook [Field [65] [107] TUint8, Field [66] [107] TUint8])
        (VStruct [([65], VUint8 1), ([66], VUint8 1)]))
   = Inr (VStruct [([65], VUint8 0), ([66], VUint8 5)])"
  by code_simp

text \<open>
  Claim C6, amended. A decoded map \<open>x\<close> is cast into a struct without the method
  \<open>UncastedErlpack\<close>, behind any number \<open>n\<close> of pointers; the field names of the struct are
  distinct, as Go has them.
  \<^item> A key of the map that is no string causes a cast error, in every case in which
    the cast of no value into the field its key stands for panics (what a run with
    such a panic does is left open).
  \<^item> When the cast succeeds (the keys, then all strings, are distinct), the new struct
    has the fields of the type, and each field holds: the recursively cast value of
    the entry \<open>entryFor x fs f\<close>, which is the entry under the field's lookup key when
    the field is the one the table \<open>fieldFor\<close> gives for that key (the last declared
    field that is not excluded and has that lookup key); the zero value of its type
    otherwise.
  \<^item> A field tagged \<open>-\<close> has no such entry: it is never assigned.
  \<^item> The cast succeeds as soon as every key is a string and the value of every key
    that the table maps to a field casts into that field's type: an entry whose key
    matches no field asks for nothing.
\<close>

theorem map_into_struct:
  assumes "distinct (map fname fs)"
  shows
    "((\<exists>k v. (k, v) \<in> set x \<and> stringKey k = None)
        \<and> (\<forall>k v str f msg. (k, v) \<in> set x \<and> k = IString str \<and> fieldFor fs str = Some f \<longrightarrow>
              castInto v (ftype f) \<noteq> Inl (Panic msg)) \<longrightarrow>
        (\<exists>msg. handleItemCasting (IMap x) (dest (ptrTo n (TStruct NoHook fs)) old)
                = Inl (Err msg)))
     \<and> (distinct (map fst x) \<longrightarrow>
        (\<forall>res. handleItemCasting (IMap x) (dest (ptrTo n (TStruct NoHook fs)) old) = Inr res \<longrightarrow>
          (\<exists>i. res = ptrVal n (VStruct i) \<and> map fst i = map fname fs \<and>
             (\<forall>f \<in> set fs.
                case entryFor x fs f of
                  None \<Rightarrow> map_of i (fname f) = Some (zero (ftype f))
                | Some v \<Rightarrow> \<exists>y. castInto v (ftype f) = Inr y \<and> map_of i (fname f) = Some y))))
     \<and> (\<forall>f. excluded f \<longrightarrow> entryFor x fs f = None)
     \<and> ((\<forall>k v. (k, v) \<in> set x \<longrightarrow>
            (\<exists>str. k = IString str \<and>
               (\<forall>f. fieldFor fs str = Some f \<longrightarrow> \<not> isl (castInto v (ftype f))))) \<longrightarrow>
          \<not> isl (handleItemCasting (IMap x) (dest (ptrTo n (TStruct NoHook fs)) old)))"
proof -
  let ?loop = "castStructLoop x (tag2fieldLoop fs Map.empty) fs (zero_fields fs)"
  let ?R = "handleItemCasting (IMap x) (dest (ptrTo n (TStruct NoHook fs)) old)"
  have R: "?R = (case ?loop of Inl e \<Rightarrow> Inl e | Inr i \<Rightarrow> Inr (ptrVal n (VStruct i)))"
    by (rule handleItemCasting_struct)
  have 1: "\<exists>msg. ?R = Inl (Err msg)"
    if key: "(k, v) \<in> set x" "stringKey k = None"
      and np: "\<forall>k v str f msg. (k, v) \<in> set x \<and> k = IString str \<and> fieldFor fs str = Some f \<longrightarrow>
              castInto v (ftype f) \<noteq> Inl (Panic msg)"
    for k v
  proof (cases ?loop)
    case (Inl e)
    show ?thesis
    proof (cases e)
      case (Err msg)
      with Inl R show ?thesis by simp
    next
      case (Panic msg)
      have "?loop \<noteq> Inl (Panic msg)"
        by (rule castStructLoop_no_panic[OF assms]) (use np in blast)
      with Inl Panic show ?thesis by simp
    qed
  next
    case (Inr i)
    from castStructLoop_keys[OF Inr key(1)] key(2) show ?thesis by simp
  qed
  have 2: "\<exists>i. res = ptrVal n (VStruct i) \<and> map fst i = map fname fs \<and>
             (\<forall>f \<in> set fs.
                case entryFor x fs f of
                  None \<Rightarrow> map_of i (fname f) = Some (zero (ftype f))
                | Some v \<Rightarrow> \<exists>y. castInto v (ftype f) = Inr y \<and> map_of i (fname f) = Some y)"
    if dx: "distinct (map fst x)" and res: "?R = Inr res" for res
  proof -
    from res R obtain i where i: "?loop = Inr i" and r: "res = ptrVal n (VStruct i)"
      by (auto split: sum.splits)
    from castStructLoop_result[OF assms i dx zero_fields_fst]
    have n: "map fst i = map fname fs"
      and f: "\<forall>f \<in> set fs.
        case entryFor x fs f of
          None \<Rightarrow> map_of i (fname f) = map_of (zero_fields fs) (fname f)
        | Some v \<Rightarrow> \<exists>y. castInto v (ftype f) = Inr y \<and> map_of i (fname f) = Some y"
      by simp_all
    have "case entryFor x fs f of
            None \<Rightarrow> map_of i (fname f) = Some (zero (ftype f))
          | Some v \<Rightarrow> \<exists>y. castInto v (ftype f) = Inr y \<and> map_of i (fname f) = Some y"
      if "f \<in> set fs" for f
      using f that zero_fields_map_of[OF assms that] by (auto split: option.splits)
    with r n show ?thesis by blast
  qed
  have 3: "\<not> isl ?R"
    if "\<forall>k v. (k, v) \<in> set x \<longrightarrow>
            (\<exists>str. k = IString str \<and>
               (\<forall>f. fieldFor fs str = Some f \<longrightarrow> \<not> isl (castInto v (ftype f))))"
  proof -
    have "\<not> isl ?loop"
      by (rule castStructLoop_succeeds[OF assms]) (use that in blast)
    with R show ?thesis by (cases ?loop) simp_all
  qed
  from 1 2 3 entryFor_excluded show ?thesis by blast
qed

text \<open>
  The theorem at a struct with a field \<open>A\<close> tagged \<open>k\<close>, an untagged field \<open>B\<close> and a field
  \<open>C\<close> tagged \<open>-\<close>, and the map \<open>k \<mapsto> 5, C \<mapsto> 9, z \<mapsto> nil\<close>: \<open>A\<close> becomes 5, \<open>B\<close> and the
  excluded \<open>C\<close> keep zero, and the key \<open>z\<close> is ignored. With the small integer 1 as a
  second key beside \<open>k\<close>, the cast is the error of the loop.
\<close>

theorem map_into_struct_witness:
  "distinct (map fname [Field [65] [107] TUint8, Field [66] [] TUint8, Field [67] [45] TUint8])
   \<and> distinct (map fst [(IString [107], IUint8 5), (IString [67], IUint8 9), (IString [122], INil)])
   \<and> handleItemCasting
        (IMap [(IString [107], IUint8 5), (IString [67], IUint8 9), (IString [122], INil)])
        (dest (ptrTo 0 (TStruct NoHook
           [Field [65] [107] TUint8, Field [66] [] TUint8, Field [67] [45] TUint8])) VNil)
      = Inr (VStruct [([65], VUint8 5), ([66], VUint8 0), ([67], VUint8 0)])
   \<and> handleItemCasting
        (IMap [(IString [107], IUint8 5), (IUint8 1, IUint8 2)])
        (dest (ptrTo 0 (TStruct NoHook
           [Field [65] [107] TUint8, Field [66] [] TUint8, Field [67] [45] TUint8])) VNil)
      = Inl (Err ''key must be string'')
   \<and> stringKey (IUint8 1) = None
   \<and> castInto (IUint8 5) TUint8 = Inr (VUint8 5)"
proof -
  let ?fs = "[Field [65] [107] TUint8, Field [66] [] TUint8, Field [67] [45] TUint8]"
  let ?x = "[(IString [107], IUint8 5), (IString [67], IUint8 9), (IString [122], INil)]"
  have d1: "distinct (map fname ?fs)" by simp
  have d2: "distinct (map fst ?x)" by simp
  have ev: "handleItemCasting (IMap ?x) (dest (ptrTo 0 (TStruct NoHook ?fs)) VNil)
      = Inr (VStruct [([65], VUint8 5), ([66], VUint8 0), ([67], VUint8 0)])"
    by code_simp
  have c: "castInto (IUint8 5) TUint8 = Inr (VUint8 5)"
    by code_simp
  have ev': "handleItemCasting (IMap [(IString [107], IUint8 5), (IUint8 1, IUint8 2)])
        (dest (ptrTo 0 (TStruct NoHook ?fs)) VNil)
      = Inl (Err ''key must be string'')"
    by code_simp
  from map_into_struct[OF d1, of ?x 0 VNil]
    map_into_struct[OF d1, of "[(IString [107], IUint8 5), (IUint8 1, IUint8 2)]" 0 VNil]
    d1 d2 ev ev' c
  show ?thesis by simp
qed

end
